theory Spec2Isabelle
  imports Complex_Main "HOL-Library.Multiset"
begin

section \<open>Strings\<close>

text \<open>
  Python strings are modelled as \<open>string\<close> (a list of 8-bit characters) and read as
  ASCII text: the keyword strings the classifier sees are built from text that
  \<open>preprocess_text\<close> has already reduced to the letters a-z and blanks.
\<close>

definition lower_char :: "char \<Rightarrow> char" where
  "lower_char c =
     (case map_of (zip ''ABCDEFGHIJKLMNOPQRSTUVWXYZ'' ''abcdefghijklmnopqrstuvwxyz'') c of
        Some d \<Rightarrow> d
      | None \<Rightarrow> c)"

definition lower :: "string \<Rightarrow> string" where
  "lower s = map lower_char s"

text \<open>\<open>starts_with p s\<close> is \<open>s.startswith(p)\<close>; \<open>str_in p s\<close> is Python's \<open>p in s\<close>.\<close>

fun starts_with :: "string \<Rightarrow> string \<Rightarrow> bool" where
  "starts_with [] s = True"
| "starts_with (p # ps) [] = False"
| "starts_with (p # ps) (c # cs) = (p = c \<and> starts_with ps cs)"

fun str_in :: "string \<Rightarrow> string \<Rightarrow> bool" where
  "str_in p [] = (p = [])"
| "str_in p (c # cs) = (starts_with p (c # cs) \<or> str_in p cs)"

text \<open>The mathematical reading of \<open>p in s\<close>: \<open>p\<close> occurs somewhere inside \<open>s\<close>.\<close>

definition occurs_in :: "string \<Rightarrow> string \<Rightarrow> bool" where
  "occurs_in p s = (\<exists>a b. s = a @ p @ b)"

section \<open>Data frames\<close>

text \<open>
  A data frame is its column names and its rows, with the default positional index
  (0, 1, 2, ...) that \<open>pd.read_csv\<close> gives it in \<open>main\<close>. A cell of the \<open>review\<close>,
  \<open>sentiment_label\<close> or \<open>theme\<close> column may be missing (NaN, \<open>None\<close> here); a theme that
  was written as the empty string comes back from the CSV file as NaN. Reading a column
  that the frame does not have raises \<open>KeyError\<close>.
\<close>

datatype py_error = KeyError string | IndexError | ValueError

record row =
  review :: "string option"
  rating :: int
  bank :: string
  sentiment_label :: "string option"
  theme :: "string option"

record dataframe =
  columns :: "string list"
  rows :: "row list"

text \<open>\<open>Series.unique()\<close>: the distinct values in order of first appearance.\<close>

fun unique_loop :: "'a list \<Rightarrow> 'a list \<Rightarrow> 'a list" where
  "unique_loop [] seen = seen"
| "unique_loop (x # xs) seen = unique_loop xs (if x \<in> set seen then seen else seen @ [x])"

definition unique :: "'a list \<Rightarrow> 'a list" where
  "unique xs = unique_loop xs []"

section \<open>Theme classifier (thematic_analysis.py)\<close>

text \<open>The dictionary \<open>theme_patterns\<close>, in its declaration order (a Python dict iterates
  in insertion order).\<close>

definition theme_patterns :: "(string \<times> string list) list" where
  "theme_patterns =
    [(''Account Access Issues'',
        [''login'', ''password'', ''access'', ''account'', ''sign'', ''authentication'',
         ''verify'', ''security'', ''locked'', ''blocked'']),
     (''Transaction Performance'',
        [''transfer'', ''transaction'', ''payment'', ''slow'', ''fast'', ''speed'',
         ''timeout'', ''delay'', ''processing'', ''complete'', ''failed'']),
     (''User Interface & Experience'',
        [''ui'', ''interface'', ''design'', ''layout'', ''navigation'', ''button'',
         ''screen'', ''display'', ''user'', ''experience'', ''ux'', ''easy'', ''simple'']),
     (''Customer Support'',
        [''support'', ''help'', ''service'', ''customer'', ''contact'', ''response'',
         ''assistance'', ''issue'', ''problem'', ''complaint'', ''resolve'']),
     (''App Reliability'',
        [''crash'', ''error'', ''bug'', ''glitch'', ''freeze'', ''hang'', ''close'',
         ''restart'', ''unstable'', ''reliable'', ''stable'', ''working'']),
     (''Feature Requests'',
        [''feature'', ''add'', ''want'', ''need'', ''missing'', ''request'', ''suggest'',
         ''improve'', ''enhance'', ''option'', ''functionality'']),
     (''Security & Privacy'',
        [''security'', ''privacy'', ''safe'', ''secure'', ''protection'', ''data'',
         ''personal'', ''information'', ''trust'', ''fraud''])]"

text \<open>The inner loop \<open>for pattern in patterns: if pattern in keyword_lower: ...; break\<close>:
  the result says whether the theme was appended to \<open>matched_themes\<close>.\<close>

fun pattern_loop :: "string list \<Rightarrow> string \<Rightarrow> bool" where
  "pattern_loop [] keyword_lower = False"
| "pattern_loop (pattern # patterns) keyword_lower =
     (if str_in pattern keyword_lower then True else pattern_loop patterns keyword_lower)"

text \<open>The outer loop \<open>for theme, patterns in theme_patterns.items()\<close>, with the list
  \<open>matched_themes\<close> as its state.\<close>

fun theme_loop :: "(string \<times> string list) list \<Rightarrow> string \<Rightarrow> string list \<Rightarrow> string list" where
  "theme_loop [] keyword_lower matched_themes = matched_themes"
| "theme_loop ((name, patterns) # rest) keyword_lower matched_themes =
     theme_loop rest keyword_lower
       (if pattern_loop patterns keyword_lower then matched_themes @ [name]
        else matched_themes)"

text \<open>The body of the loop over \<open>keywords_list\<close>: the value appended to
  \<open>review_themes\<close> for one keyword string. The taxonomy is a parameter so that the claims
  can say what does and does not depend on it; the program always passes
  \<open>theme_patterns\<close>.\<close>

definition assign_theme :: "(string \<times> string list) list \<Rightarrow> string \<Rightarrow> string" where
  "assign_theme taxonomy keywords =
     (if keywords = [] then []
      else
        (let keyword_lower = lower keywords;
             matched_themes = theme_loop taxonomy keyword_lower []
         in case matched_themes of
              [] \<Rightarrow> ''Other''
            | primary # _ \<Rightarrow> primary))"

fun review_loop :: "string list \<Rightarrow> string list \<Rightarrow> string list" where
  "review_loop [] review_themes = review_themes"
| "review_loop (keywords # keywords_list) review_themes =
     review_loop keywords_list (review_themes @ [assign_theme theme_patterns keywords])"

text \<open>\<open>identify_themes_manual(keywords_list, df)\<close>; the frame is not read.\<close>

definition identify_themes_manual :: "string list \<Rightarrow> 'df \<Rightarrow> string list" where
  "identify_themes_manual keywords_list df = review_loop keywords_list []"

text \<open>\<open>[keywords_list[i] for i in bank_indices]\<close>: an index past the end raises.\<close>

fun gather :: "'a list \<Rightarrow> nat list \<Rightarrow> py_error + 'a list" where
  "gather xs [] = Inr []"
| "gather xs (i # is) =
     (if i < length xs
      then (case gather xs is of Inl e \<Rightarrow> Inl e | Inr ys \<Rightarrow> Inr (xs ! i # ys))
      else Inl IndexError)"

text \<open>\<open>d[k] = v\<close> on a dict kept as an association list in insertion order.\<close>

fun dict_set :: "('k \<times> 'v) list \<Rightarrow> 'k \<Rightarrow> 'v \<Rightarrow> ('k \<times> 'v) list" where
  "dict_set [] k v = [(k, v)]"
| "dict_set ((k', v') # d) k v = (if k' = k then (k', v) # d else (k', v') # dict_set d k v)"

text \<open>The positions of the rows of one bank: \<open>df[df['bank'] == bank].index\<close>.\<close>

definition bank_index :: "dataframe \<Rightarrow> string \<Rightarrow> nat list" where
  "bank_index df b = filter (\<lambda>i. bank (rows df ! i) = b) [0..<length (rows df)]"

fun bank_loop ::
  "dataframe \<Rightarrow> string list \<Rightarrow> string list \<Rightarrow> (string \<times> string list) list
     \<Rightarrow> py_error + (string \<times> string list) list" where
  "bank_loop df keywords_list [] bank_themes = Inr bank_themes"
| "bank_loop df keywords_list (b # banks) bank_themes =
     (let bank_indices = bank_index df b
      in case gather keywords_list bank_indices of
           Inl e \<Rightarrow> Inl e
         | Inr bank_keywords \<Rightarrow>
             if ''review'' \<notin> set (columns df) then Inl (KeyError ''review'')
             else
               (let temp_df = map (\<lambda>i. review (rows df ! i)) bank_indices;
                    themes = identify_themes_manual bank_keywords temp_df
                in bank_loop df keywords_list banks (dict_set bank_themes b themes)))"

definition identify_themes_by_bank ::
  "dataframe \<Rightarrow> string list \<Rightarrow> py_error + (string \<times> string list) list" where
  "identify_themes_by_bank df keywords_list =
     (if ''bank'' \<notin> set (columns df) then Inl (KeyError ''bank'')
      else bank_loop df keywords_list (unique (map bank (rows df))) [])"

section \<open>Tallies\<close>

text \<open>
  \<open>Series.value_counts()\<close> with its defaults: missing values are dropped, the remaining
  values are counted in a hash table that keeps the keys in order of first appearance, and
  the table is sorted by descending count. The sort is taken to be stable (equal counts
  stay in order of first appearance); no claim proved below depends on the order among
  equal counts.
\<close>

fun bump :: "'a \<Rightarrow> ('a \<times> nat) list \<Rightarrow> ('a \<times> nat) list" where
  "bump k [] = [(k, 1)]"
| "bump k ((k', c) # table) =
     (if k' = k then (k', Suc c) # table else (k', c) # bump k table)"

fun count_loop :: "'a option list \<Rightarrow> ('a \<times> nat) list \<Rightarrow> ('a \<times> nat) list" where
  "count_loop [] table = table"
| "count_loop (None # col) table = count_loop col table"
| "count_loop (Some x # col) table = count_loop col (bump x table)"

definition value_counts :: "'a option list \<Rightarrow> ('a \<times> nat) list" where
  "value_counts col = sort_key (\<lambda>kc. - int (snd kc)) (count_loop col [])"

section \<open>Double-precision arithmetic\<close>

text \<open>
  The percentages are Python floats (IEEE 754 binary64). A finite double is modelled by
  the rational number it denotes, and an arithmetic operation by the exact operation
  followed by \<open>round_double\<close>, the rounding to the nearest double with 53 significant
  bits, ties to the even significand. The exponent range is not bounded: overflow and
  subnormal numbers do not occur for the counts of a frame, which are below \<open>2 ^ 63\<close>.
\<close>

text \<open>Rounding to the nearest integer, ties to even.\<close>

definition round_even :: "rat \<Rightarrow> int" where
  "round_even x =
     (let f = \<lfloor>x\<rfloor>; d = x - of_int f
      in if d < 1 / 2 then f
         else if 1 / 2 < d then f + 1
         else if even f then f else f + 1)"

text \<open>For \<open>1 \<le> q\<close>, \<open>exp_up q\<close> is the \<open>k\<close> with \<open>2 ^ k \<le> q < 2 ^ (k + 1)\<close>; for \<open>0 < q < 1\<close>,
  \<open>exp_down q\<close> is the \<open>k\<close> with \<open>1 / 2 ^ k \<le> q < 2 / 2 ^ k\<close>.\<close>

function exp_up :: "rat \<Rightarrow> nat" where
  "exp_up q = (if q < 2 then 0 else Suc (exp_up (q / 2)))"
  by pat_completeness auto
termination
proof (relation "measure (\<lambda>q. nat \<lfloor>q\<rfloor>)")
  show "wf (measure (\<lambda>q::rat. nat \<lfloor>q\<rfloor>))" by simp
next
  fix q :: rat
  assume "\<not> q < 2"
  then have q: "2 \<le> q" by simp
  then have "q / 2 \<le> q - 1" by simp
  then have "\<lfloor>q / 2\<rfloor> \<le> \<lfloor>q - 1\<rfloor>" by (rule floor_mono)
  moreover have "2 \<le> \<lfloor>q\<rfloor>" using q by (simp add: le_floor_iff)
  ultimately show "(q / 2, q) \<in> measure (\<lambda>q. nat \<lfloor>q\<rfloor>)"
    by simp
qed

function exp_down :: "rat \<Rightarrow> nat" where
  "exp_down q = (if q \<le> 0 \<or> 1 \<le> q then 0 else Suc (exp_down (2 * q)))"
  by pat_completeness auto
termination
proof (relation "measure (\<lambda>q. nat \<lfloor>1 / q\<rfloor>)")
  show "wf (measure (\<lambda>q::rat. nat \<lfloor>1 / q\<rfloor>))" by simp
next
  fix q :: rat
  assume "\<not> (q \<le> 0 \<or> 1 \<le> q)"
  then have q: "0 < q" "q < 1" by simp_all
  define r where "r = 1 / q"
  have r: "1 < r" using q by (simp add: r_def)
  have half: "1 / (2 * q) = r / 2" by (simp add: r_def)
  have "\<lfloor>r / 2\<rfloor> < \<lfloor>r\<rfloor>"
  proof (cases "r < 2")
    case True
    then have "\<lfloor>r / 2\<rfloor> = 0" using r by (simp add: floor_eq_iff)
    moreover have "1 \<le> \<lfloor>r\<rfloor>" using r by (simp add: le_floor_iff)
    ultimately show ?thesis by simp
  next
    case False
    then have "r / 2 \<le> r - 1" by simp
    then have "\<lfloor>r / 2\<rfloor> \<le> \<lfloor>r - 1\<rfloor>" by (rule floor_mono)
    then show ?thesis by simp
  qed
  moreover have "0 < \<lfloor>r\<rfloor>" using r by (simp add: floor_less_iff less_floor_iff)
  ultimately show "(2 * q, q) \<in> measure (\<lambda>q. nat \<lfloor>1 / q\<rfloor>)"
    unfolding in_measure half r_def [symmetric] by simp
qed

text \<open>The unit in the last place of the doubles around a positive \<open>q\<close>: with
  \<open>2 ^ e \<le> q < 2 ^ (e + 1)\<close> it is \<open>2 ^ (e - 52)\<close>.\<close>

definition ulp :: "rat \<Rightarrow> rat" where
  "ulp q = (if 1 \<le> q then 2 ^ exp_up q / 2 ^ 52 else 1 / (2 ^ exp_down q * 2 ^ 52))"

definition round_double :: "rat \<Rightarrow> rat" where
  "round_double q =
     (if q = 0 then 0
      else if q < 0 then - (of_int (round_even (- q / ulp (- q))) * ulp (- q))
      else of_int (round_even (q / ulp q)) * ulp q)"

section \<open>Drivers and pain points (generate_insights.py)\<close>

text \<open>
  An insight is the dict \<open>{'theme': ..., 'count': ..., 'percentage': ...}\<close>. The percentage
  is a double, given by the rational number it denotes.
\<close>

record insight =
  ins_theme :: string
  ins_count :: nat
  ins_percentage :: rat

record insights =
  drivers :: "insight list"
  pain_points :: "insight list"

text \<open>\<open>(count / len(segment)) * 100\<close> in double arithmetic: the two integers are
  converted to doubles, the quotient is rounded, and so is its product with 100.\<close>

definition pct :: "nat \<Rightarrow> nat \<Rightarrow> rat" where
  "pct cnt n =
     round_double (round_double (round_double (of_nat cnt) / round_double (of_nat n)) * 100)"

text \<open>The loop of the sentiment blocks:
  \<open>for theme, count in top.items(): if theme and theme != 'Other': lst.append({...})\<close>.\<close>

fun sentiment_loop :: "(string \<times> nat) list \<Rightarrow> nat \<Rightarrow> insight list \<Rightarrow> insight list" where
  "sentiment_loop [] n lst = lst"
| "sentiment_loop ((name, cnt) # rest) n lst =
     sentiment_loop rest n
       (if name \<noteq> [] \<and> name \<noteq> ''Other''
        then lst @ [\<lparr>ins_theme = name, ins_count = cnt, ins_percentage = pct cnt n\<rparr>]
        else lst)"

text \<open>The loop of the rating blocks, which also checks
  \<open>not any(p['theme'] == theme for p in lst)\<close> before it appends.\<close>

fun rating_loop :: "(string \<times> nat) list \<Rightarrow> nat \<Rightarrow> insight list \<Rightarrow> insight list" where
  "rating_loop [] n lst = lst"
| "rating_loop ((name, cnt) # rest) n lst =
     rating_loop rest n
       (if name \<noteq> [] \<and> name \<noteq> ''Other''
        then (if \<not> list_ex (\<lambda>p. ins_theme p = name) lst
              then lst @ [\<lparr>ins_theme = name, ins_count = cnt, ins_percentage = pct cnt n\<rparr>]
              else lst)
        else lst)"

text \<open>One sentiment block: \<open>if len(segment) > 0: top = segment['theme'].value_counts().head(3); ...\<close>\<close>

definition sentiment_pass :: "row list \<Rightarrow> insight list \<Rightarrow> insight list" where
  "sentiment_pass segment lst =
     (if length segment > 0
      then sentiment_loop (take 3 (value_counts (map theme segment))) (length segment) lst
      else lst)"

text \<open>One rating block:
  \<open>if len(segment) > 0 and 'theme' in segment.columns: top = segment['theme'].value_counts().head(2); ...\<close>\<close>

definition rating_pass :: "string list \<Rightarrow> row list \<Rightarrow> insight list \<Rightarrow> insight list" where
  "rating_pass cols segment lst =
     (if length segment > 0 \<and> ''theme'' \<in> set cols
      then rating_loop (take 2 (value_counts (map theme segment))) (length segment) lst
      else lst)"

text \<open>The four segments of a bank's rows.\<close>

definition positive_reviews :: "row list \<Rightarrow> row list" where
  "positive_reviews rs = filter (\<lambda>r. sentiment_label r = Some ''POSITIVE'') rs"

definition negative_reviews :: "row list \<Rightarrow> row list" where
  "negative_reviews rs = filter (\<lambda>r. sentiment_label r = Some ''NEGATIVE'') rs"

definition low_ratings :: "row list \<Rightarrow> row list" where
  "low_ratings rs = filter (\<lambda>r. rating r \<le> 2) rs"

definition high_ratings :: "row list \<Rightarrow> row list" where
  "high_ratings rs = filter (\<lambda>r. rating r \<ge> 4) rs"

text \<open>\<open>if bank_name: bank_df = df[df['bank'] == bank_name].copy() else: bank_df = df.copy()\<close>;
  \<open>None\<close> and the empty string are both false in Python.\<close>

definition select_bank :: "dataframe \<Rightarrow> string option \<Rightarrow> py_error + row list" where
  "select_bank df bank_name =
     (case bank_name of
        None \<Rightarrow> Inr (rows df)
      | Some b \<Rightarrow>
          if b = [] then Inr (rows df)
          else if ''bank'' \<notin> set (columns df) then Inl (KeyError ''bank'')
          else Inr (filter (\<lambda>r. bank r = b) (rows df)))"

definition sentiment_block :: "string list \<Rightarrow> row list \<Rightarrow> insights \<Rightarrow> insights" where
  "sentiment_block cols bank_df ins =
     (if ''sentiment_label'' \<in> set cols \<and> ''theme'' \<in> set cols
      then
        (let ins1 = ins\<lparr>drivers := sentiment_pass (positive_reviews bank_df) (drivers ins)\<rparr>
         in ins1\<lparr>pain_points := sentiment_pass (negative_reviews bank_df) (pain_points ins1)\<rparr>)
      else ins)"

definition rating_block :: "string list \<Rightarrow> row list \<Rightarrow> insights \<Rightarrow> insights" where
  "rating_block cols bank_df ins =
     (if ''rating'' \<in> set cols
      then
        (let ins1 = ins\<lparr>pain_points := rating_pass cols (low_ratings bank_df) (pain_points ins)\<rparr>
         in ins1\<lparr>drivers := rating_pass cols (high_ratings bank_df) (drivers ins1)\<rparr>)
      else ins)"

definition identify_drivers_and_pain_points ::
  "dataframe \<Rightarrow> string option \<Rightarrow> py_error + insights" where
  "identify_drivers_and_pain_points df bank_name =
     (case select_bank df bank_name of
        Inl e \<Rightarrow> Inl e
      | Inr bank_df \<Rightarrow>
          Inr (rating_block (columns df) bank_df
                 (sentiment_block (columns df) bank_df \<lparr>drivers = [], pain_points = []\<rparr>)))"

section \<open>Recommendations (generate_insights.py)\<close>

record recommendation =
  category :: string
  recommendation_text :: string
  priority :: string

text \<open>The \<open>if\<close>/\<open>elif\<close> chain of the pain-point loop: what it appends for one theme, if
  anything.\<close>

definition pain_point_rule :: "string \<Rightarrow> recommendation option" where
  "pain_point_rule name =
     (if str_in ''Account Access'' name then
        Some \<lparr>category = ''Account Access'',
              recommendation_text = ''Improve login process and authentication mechanisms. Consider implementing biometric authentication and password recovery options.'',
              priority = ''High''\<rparr>
      else if str_in ''Transaction Performance'' name then
        Some \<lparr>category = ''Performance'',
              recommendation_text = ''Optimize transaction processing speed. Investigate server response times and implement caching strategies.'',
              priority = ''High''\<rparr>
      else if str_in ''User Interface'' name \<or> str_in ''Experience'' name then
        Some \<lparr>category = ''UX/UI'',
              recommendation_text = ''Redesign user interface for better usability. Conduct user testing and implement modern design patterns.'',
              priority = ''Medium''\<rparr>
      else if str_in ''Customer Support'' name then
        Some \<lparr>category = ''Support'',
              recommendation_text = ''Enhance customer support channels. Consider implementing AI chatbot for faster response times.'',
              priority = ''High''\<rparr>
      else if str_in ''Reliability'' name then
        Some \<lparr>category = ''Stability'',
              recommendation_text = ''Fix app crashes and stability issues. Implement comprehensive error handling and testing.'',
              priority = ''Critical''\<rparr>
      else None)"

definition driver_rule :: "string \<Rightarrow> recommendation option" where
  "driver_rule name =
     (if str_in ''Transaction Performance'' name then
        Some \<lparr>category = ''Enhancement'',
              recommendation_text = ''Leverage fast transaction processing as a competitive advantage. Market this feature prominently.'',
              priority = ''Low''\<rparr>
      else None)"

fun pain_point_loop :: "insight list \<Rightarrow> recommendation list \<Rightarrow> recommendation list" where
  "pain_point_loop [] recommendations = recommendations"
| "pain_point_loop (pain_point # rest) recommendations =
     pain_point_loop rest
       (case pain_point_rule (ins_theme pain_point) of
          Some r \<Rightarrow> recommendations @ [r]
        | None \<Rightarrow> recommendations)"

fun driver_loop :: "insight list \<Rightarrow> recommendation list \<Rightarrow> recommendation list" where
  "driver_loop [] recommendations = recommendations"
| "driver_loop (driver # rest) recommendations =
     driver_loop rest
       (case driver_rule (ins_theme driver) of
          Some r \<Rightarrow> recommendations @ [r]
        | None \<Rightarrow> recommendations)"

definition recommendations_of :: "insights \<Rightarrow> recommendation list" where
  "recommendations_of ins = driver_loop (drivers ins) (pain_point_loop (pain_points ins) [])"

definition generate_recommendations ::
  "dataframe \<Rightarrow> string option \<Rightarrow> py_error + recommendation list" where
  "generate_recommendations df bank_name =
     (case identify_drivers_and_pain_points df bank_name of
        Inl e \<Rightarrow> Inl e
      | Inr ins \<Rightarrow> Inr (recommendations_of ins))"

section \<open>Keyword extraction (thematic_analysis.py)\<close>

text \<open>The characters that \<open>\s\<close> and \<open>str.strip()\<close> treat as white space, within ASCII.\<close>

definition is_space :: "char \<Rightarrow> bool" where
  "is_space c = (c \<in> set [CHR 0x09, CHR 0x0A, CHR 0x0B, CHR 0x0C, CHR 0x0D,
                           CHR 0x1C, CHR 0x1D, CHR 0x1E, CHR 0x1F, CHR 0x20])"

definition is_alpha :: "char \<Rightarrow> bool" where
  "is_alpha c = (c \<in> set (''abcdefghijklmnopqrstuvwxyz'' @ ''ABCDEFGHIJKLMNOPQRSTUVWXYZ''))"

text \<open>\<open>re.sub(r'\s+', ' ', text)\<close>: every maximal run of white space becomes one blank.\<close>

function collapse_ws :: "string \<Rightarrow> string" where
  "collapse_ws [] = []"
| "collapse_ws (c # cs) =
     (if is_space c then CHR '' '' # collapse_ws (dropWhile is_space cs)
      else c # collapse_ws cs)"
  by pat_completeness auto
termination
  by (relation "measure length") (auto simp: length_dropWhile_le less_Suc_eq_le)

definition strip :: "string \<Rightarrow> string" where
  "strip s = rev (dropWhile is_space (rev (dropWhile is_space s)))"

definition preprocess_text :: "string option \<Rightarrow> string" where
  "preprocess_text text =
     (case text of
        None \<Rightarrow> []
      | Some s \<Rightarrow> strip (collapse_ws (filter (\<lambda>c. is_alpha c \<or> is_space c) (lower s))))"

text \<open>\<open>sep.join(xs)\<close>\<close>

fun join :: "string \<Rightarrow> string list \<Rightarrow> string" where
  "join sep [] = []"
| "join sep [x] = x"
| "join sep (x # y # ys) = x @ sep @ join sep (y # ys)"

text \<open>
  \<open>scores.argsort()\<close> is numpy's: it returns the positions of \<open>scores\<close> in ascending order
  of score, and its default sort kind promises no order among equal scores. So \<open>argsort\<close>
  is a parameter of the functions below, and \<open>is_argsort scores order\<close> says that \<open>order\<close>
  is one of the results numpy may return for \<open>scores\<close>: a permutation of the positions
  along which the scores do not decrease. The TF-IDF weights are floats; they are given by
  the rational numbers they denote, of which only the order and the sign are used.
\<close>

definition is_argsort :: "rat list \<Rightarrow> nat list \<Rightarrow> bool" where
  "is_argsort scores order =
     (sort order = [0..<length scores] \<and> sorted (map ((!) scores) order))"

text \<open>\<open>order[-10:][::-1]\<close>\<close>

definition top_indices :: "nat list \<Rightarrow> nat list" where
  "top_indices order = rev (drop (length order - 10) order)"

text \<open>The list comprehension
  \<open>[feature_names[idx] for idx in top_indices if scores[idx] > 0]\<close>; an index past the end
  of either sequence raises.\<close>

fun select_keywords :: "string list \<Rightarrow> rat list \<Rightarrow> nat list \<Rightarrow> py_error + string list" where
  "select_keywords feature_names scores [] = Inr []"
| "select_keywords feature_names scores (idx # rest) =
     (if idx < length scores then
        (if 0 < scores ! idx then
           (if idx < length feature_names then
              (case select_keywords feature_names scores rest of
                 Inl e \<Rightarrow> Inl e
               | Inr keywords \<Rightarrow> Inr (feature_names ! idx # keywords))
            else Inl IndexError)
         else select_keywords feature_names scores rest)
      else Inl IndexError)"

text \<open>The body of \<open>if text.strip():\<close> for one document: the keyword string appended to
  \<open>keywords_list\<close>, or the exception raised on the way.\<close>

definition document_keywords ::
  "(rat list \<Rightarrow> nat list) \<Rightarrow> string list \<Rightarrow> rat list \<Rightarrow> py_error + string" where
  "document_keywords argsort feature_names scores =
     (case select_keywords feature_names scores (top_indices (argsort scores)) of
        Inl e \<Rightarrow> Inl e
      | Inr keywords \<Rightarrow> Inr (join '', '' (take 5 keywords)))"

text \<open>The loop \<open>for i, text in enumerate(texts)\<close> inside the \<open>try\<close> block.\<close>

fun keywords_loop ::
  "(rat list \<Rightarrow> nat list) \<Rightarrow> string list \<Rightarrow> rat list list \<Rightarrow> nat \<Rightarrow> string list
     \<Rightarrow> string list \<Rightarrow> py_error + string list" where
  "keywords_loop argsort feature_names tfidf_matrix i [] keywords_list = Inr keywords_list"
| "keywords_loop argsort feature_names tfidf_matrix i (text # texts) keywords_list =
     (if strip text \<noteq> [] then
        (if i < length tfidf_matrix then
           (case document_keywords argsort feature_names (tfidf_matrix ! i) of
              Inl e \<Rightarrow> Inl e
            | Inr s \<Rightarrow>
                keywords_loop argsort feature_names tfidf_matrix (Suc i) texts
                  (keywords_list @ [s]))
         else Inl IndexError)
      else keywords_loop argsort feature_names tfidf_matrix (Suc i) texts
             (keywords_list @ [[]]))"

text \<open>
  The vectorizer is scikit-learn's, not this repository's: \<open>fit_transform\<close> is a
  parameter that maps the normalized texts either to an error (the exception that
  \<open>vectorizer.fit_transform\<close> raises) or to the feature names and the matrix of weights,
  one row per text. \<open>try_block\<close> is the body of the \<open>try\<close> statement: its value is the
  exception raised inside it, or the pair it returns.
\<close>

definition try_block ::
  "(string list \<Rightarrow> py_error + string list \<times> rat list list) \<Rightarrow> (rat list \<Rightarrow> nat list)
     \<Rightarrow> string list \<Rightarrow> py_error + string list \<times> string list" where
  "try_block fit_transform argsort texts =
     (case fit_transform texts of
        Inl e \<Rightarrow> Inl e
      | Inr (feature_names, tfidf_matrix) \<Rightarrow>
          (case keywords_loop argsort feature_names tfidf_matrix 0 texts [] of
             Inl e \<Rightarrow> Inl e
           | Inr keywords_list \<Rightarrow> Inr (keywords_list, feature_names)))"

text \<open>\<open>extract_keywords_tfidf(df, max_features)\<close>: the \<open>except Exception\<close> clause replaces
  any exception of the \<open>try\<close> block by \<open>['' for _ in texts], []\<close>.\<close>

definition extract_keywords_tfidf ::
  "(string list \<Rightarrow> py_error + string list \<times> rat list list) \<Rightarrow> (rat list \<Rightarrow> nat list)
     \<Rightarrow> dataframe \<Rightarrow> py_error + string list \<times> string list" where
  "extract_keywords_tfidf fit_transform argsort df =
     (if ''review'' \<notin> set (columns df) then Inl (KeyError ''review'')
      else
        (let texts = map (\<lambda>r. preprocess_text (review r)) (rows df)
         in case try_block fit_transform argsort texts of
              Inl e \<Rightarrow> Inr (map (\<lambda>_. []) texts, [])
            | Inr result \<Rightarrow> Inr result))"

section \<open>Vocabulary of the specification\<close>

text \<open>The declaration order of the taxonomy, as the specification lists it.\<close>

definition taxonomy_order :: "string list" where
  "taxonomy_order =
     [''Account Access Issues'', ''Transaction Performance'', ''User Interface & Experience'',
      ''Customer Support'', ''App Reliability'', ''Feature Requests'', ''Security & Privacy'']"

definition triggers_of :: "string \<Rightarrow> string list" where
  "triggers_of name = (case map_of theme_patterns name of Some patterns \<Rightarrow> patterns | None \<Rightarrow> [])"

text \<open>A theme matches a keyword string when one of its trigger substrings occurs in the
  lower-cased keyword string.\<close>

definition has_trigger :: "string \<Rightarrow> string \<Rightarrow> bool" where
  "has_trigger name keywords = (\<exists>p \<in> set (triggers_of name). occurs_in p (lower keywords))"

text \<open>The example scenario of the specification: three reviews of the bank CBE, already
  labelled with sentiment and theme.\<close>

definition example_frame :: dataframe where
  "example_frame =
     \<lparr>columns = [''review'', ''rating'', ''bank'', ''sentiment_label'', ''theme''],
      rows = [\<lparr>review = Some ''login failed'', rating = 1, bank = ''CBE'',
               sentiment_label = Some ''NEGATIVE'', theme = Some ''Account Access Issues''\<rparr>,
              \<lparr>review = Some ''login failed'', rating = 1, bank = ''CBE'',
               sentiment_label = Some ''NEGATIVE'', theme = Some ''Account Access Issues''\<rparr>,
              \<lparr>review = Some ''great transfer speed'', rating = 5, bank = ''CBE'',
               sentiment_label = Some ''POSITIVE'', theme = Some ''Transaction Performance''\<rparr>]\<rparr>"

text \<open>An entry of a tally can become an insight when its theme is neither "" nor Other.\<close>

definition eligible :: "string \<times> nat \<Rightarrow> bool" where
  "eligible kc = (fst kc \<noteq> [] \<and> fst kc \<noteq> ''Other'')"

text \<open>The insight made from an entry of the tally of a segment with \<open>n\<close> reviews.\<close>

definition mk_insight :: "nat \<Rightarrow> string \<times> nat \<Rightarrow> insight" where
  "mk_insight n kc = \<lparr>ins_theme = fst kc, ins_count = snd kc, ins_percentage = pct (snd kc) n\<rparr>"

text \<open>The number of reviews of a segment that carry a given theme.\<close>

definition theme_count :: "row list \<Rightarrow> string \<Rightarrow> nat" where
  "theme_count segment name = length (filter (\<lambda>r. theme r = Some name) segment)"

text \<open>The seed list of a sentiment segment in closed form: the first three entries of the
  tally of all its themes, of which the eligible ones are kept.\<close>

definition seed_list :: "row list \<Rightarrow> insight list" where
  "seed_list segment =
     map (mk_insight (length segment))
       (filter eligible (take 3 (value_counts (map theme segment))))"

text \<open>The seed list as the specification words it: the first three entries of a tally
  from which the themes "" and Other have been left out.\<close>

definition claimed_seed_list :: "row list \<Rightarrow> insight list" where
  "claimed_seed_list segment =
     map (mk_insight (length segment))
       (take 3 (value_counts
          (filter (\<lambda>t. t \<noteq> Some [] \<and> t \<noteq> Some ''Other'') (map theme segment))))"

text \<open>What a rating segment adds to a list in closed form: of the first two entries of its
  tally, the eligible ones whose theme the list does not have yet.\<close>

definition rating_extras :: "row list \<Rightarrow> insight list \<Rightarrow> insight list" where
  "rating_extras segment lst =
     map (mk_insight (length segment))
       (filter (\<lambda>kc. eligible kc \<and> fst kc \<notin> ins_theme ` set lst)
          (take 2 (value_counts (map theme segment))))"

text \<open>The lists as they stand after the sentiment blocks, before the rating blocks run.\<close>

definition seeded :: "dataframe \<Rightarrow> row list \<Rightarrow> insights" where
  "seeded df bank_df = sentiment_block (columns df) bank_df \<lparr>drivers = [], pain_points = []\<rparr>"

text \<open>An insight reports a segment when the segment is not empty, its count is the number
  of reviews of the segment with its theme, and its percentage is the double that
  \<open>(count / len(segment)) * 100\<close> yields for that count and the size of the segment.\<close>

definition reports_segment :: "row list \<Rightarrow> insight \<Rightarrow> bool" where
  "reports_segment segment i =
     (0 < length segment \<and>
      ins_count i = theme_count segment (ins_theme i) \<and>
      ins_percentage i = pct (ins_count i) (length segment))"

text \<open>The percentage as the specification words it: 100 times the count over the
  population, as a number.\<close>

definition claimed_percentage :: "nat \<Rightarrow> nat \<Rightarrow> rat" where
  "claimed_percentage cnt n = 100 * of_nat cnt / of_nat n"

text \<open>A frame in which the low-rating segment finds a theme that the negative-sentiment
  segment has already reported, with another share (two of three reviews instead of two
  of two), and in which one theme ends up in both lists.\<close>

definition mixed_frame :: dataframe where
  "mixed_frame =
     \<lparr>columns = [''review'', ''rating'', ''bank'', ''sentiment_label'', ''theme''],
      rows = [\<lparr>review = Some ''login failed'', rating = 1, bank = ''CBE'',
               sentiment_label = Some ''NEGATIVE'', theme = Some ''Account Access Issues''\<rparr>,
              \<lparr>review = Some ''login failed'', rating = 1, bank = ''CBE'',
               sentiment_label = Some ''NEGATIVE'', theme = Some ''Account Access Issues''\<rparr>,
              \<lparr>review = Some ''great transfer speed'', rating = 5, bank = ''CBE'',
               sentiment_label = Some ''POSITIVE'', theme = Some ''Transaction Performance''\<rparr>,
              \<lparr>review = Some ''fast payment'', rating = 4, bank = ''CBE'',
               sentiment_label = Some ''POSITIVE'', theme = Some ''Transaction Performance''\<rparr>,
              \<lparr>review = Some ''helpful support'', rating = 2, bank = ''CBE'',
               sentiment_label = Some ''POSITIVE'', theme = Some ''Customer Support''\<rparr>]\<rparr>"

text \<open>A frame of ten negative reviews with rating 3: four with the theme Other, three, two
  and one with three themes of the taxonomy.\<close>

definition negative_row :: "string \<Rightarrow> row" where
  "negative_row name =
     \<lparr>review = Some ''bad'', rating = 3, bank = ''CBE'',
      sentiment_label = Some ''NEGATIVE'', theme = Some name\<rparr>"

definition displaced_frame :: dataframe where
  "displaced_frame =
     \<lparr>columns = [''review'', ''rating'', ''bank'', ''sentiment_label'', ''theme''],
      rows = [negative_row ''Other'', negative_row ''Other'', negative_row ''Other'',
              negative_row ''Other'',
              negative_row ''Account Access Issues'', negative_row ''Account Access Issues'',
              negative_row ''Account Access Issues'',
              negative_row ''Transaction Performance'', negative_row ''Transaction Performance'',
              negative_row ''Customer Support'']\<rparr>"

text \<open>One of the orders that numpy may return: the one a stable sort gives (numpy's
  \<open>kind='stable'\<close>), which leaves equal scores in ascending position.\<close>

definition stable_argsort :: "rat list \<Rightarrow> nat list" where
  "stable_argsort scores = sort_key (\<lambda>j. scores ! j) [0..<length scores]"

text \<open>The selection as the specification words it: the ten positions of highest weight,
  equal weights in vocabulary order (the earlier position first), then the terms of
  positive weight among them, cut to five.\<close>

definition claimed_top_indices :: "rat list \<Rightarrow> nat list" where
  "claimed_top_indices scores =
     take 10 (sort_key (\<lambda>j. - (scores ! j)) [0..<length scores])"

definition claimed_keywords :: "string list \<Rightarrow> rat list \<Rightarrow> string" where
  "claimed_keywords feature_names scores =
     join '', ''
       (take 5 (map ((!) feature_names)
          (filter (\<lambda>j. 0 < scores ! j) (claimed_top_indices scores))))"

text \<open>Two reviews with the same two terms, and a vectorizer result that gives both terms
  the same weight in both documents.\<close>

definition tie_frame :: dataframe where
  "tie_frame =
     \<lparr>columns = [''review'', ''rating'', ''bank''],
      rows = [\<lparr>review = Some ''Login failed!'', rating = 1, bank = ''CBE'',
               sentiment_label = None, theme = None\<rparr>,
              \<lparr>review = Some ''login FAILED'', rating = 1, bank = ''CBE'',
               sentiment_label = None, theme = None\<rparr>]\<rparr>"

definition tie_vectorizer :: "string list \<Rightarrow> py_error + string list \<times> rat list list" where
  "tie_vectorizer texts = Inr ([''failed'', ''login''], [[1/2, 1/2], [1/2, 1/2]])"

section \<open>Properties of the double-precision arithmetic\<close>

lemma floor_rat_divide_numeral:
  "\<lfloor>numeral a / numeral b :: rat\<rfloor> = numeral a div numeral b"
  by (metis floor_divide_of_int_eq of_int_numeral)

lemmas double_eval = round_double_def ulp_def round_even_def Let_def floor_rat_divide_numeral

lemma exp_up_le: "1 \<le> q \<Longrightarrow> 2 ^ exp_up q \<le> q"
proof (induction q rule: exp_up.induct)
  case (1 q)
  show ?case
  proof (cases "q < 2")
    case True
    with "1.prems" show ?thesis by simp
  next
    case False
    then have "1 \<le> q / 2" by simp
    with "1.IH" False have "2 ^ exp_up (q / 2) \<le> q / 2" by simp
    with False show ?thesis by (subst exp_up.simps) simp
  qed
qed

lemma exp_down_ge: "0 < q \<Longrightarrow> q < 1 \<Longrightarrow> 1 \<le> q * 2 ^ exp_down q"
proof (induction q rule: exp_down.induct)
  case (1 q)
  show ?case
  proof (cases "1 \<le> 2 * q")
    case True
    then have "exp_down (2 * q) = 0" by (subst exp_down.simps) simp
    with "1.prems" True show ?thesis by (subst exp_down.simps) simp
  next
    case False
    with "1.prems" "1.IH" have "1 \<le> 2 * q * 2 ^ exp_down (2 * q)" by simp
    with "1.prems" show ?thesis by (subst exp_down.simps) (simp add: mult.assoc)
  qed
qed

lemma ulp_pos: "0 < ulp q"
  by (simp add: ulp_def)

lemma ulp_le: "0 < q \<Longrightarrow> ulp q * 2 ^ 52 \<le> q"
  using exp_up_le [of q] exp_down_ge [of q]
  by (auto simp: ulp_def field_simps)

lemma round_even_error: "\<bar>of_int (round_even x) - x\<bar> \<le> 1 / 2"
proof -
  have "of_int \<lfloor>x\<rfloor> \<le> x" "x < of_int \<lfloor>x\<rfloor> + 1"
    by linarith+
  then show ?thesis
    by (auto simp: round_even_def Let_def abs_le_iff)
qed

text \<open>Rounding a positive number changes it by at most one part in \<open>2 ^ 53\<close>.\<close>

lemma round_double_error:
  assumes "0 < q"
  shows "\<bar>round_double q - q\<bar> \<le> q / 2 ^ 53"
proof -
  let ?u = "ulp q"
  have u: "0 < ?u" by (rule ulp_pos)
  have rd: "round_double q = of_int (round_even (q / ?u)) * ?u"
    using assms by (simp add: round_double_def)
  have "\<bar>of_int (round_even (q / ?u)) - q / ?u\<bar> \<le> 1 / 2"
    by (rule round_even_error)
  then have "\<bar>of_int (round_even (q / ?u)) - q / ?u\<bar> * ?u \<le> 1 / 2 * ?u"
    using u by (intro mult_right_mono) simp_all
  moreover have "\<bar>of_int (round_even (q / ?u)) - q / ?u\<bar> * ?u =
                 \<bar>of_int (round_even (q / ?u)) * ?u - q\<bar>"
  proof -
    have "(of_int (round_even (q / ?u)) - q / ?u) * ?u = of_int (round_even (q / ?u)) * ?u - q"
      using u by (simp add: left_diff_distrib)
    then have "\<bar>of_int (round_even (q / ?u)) * ?u - q\<bar> =
               \<bar>of_int (round_even (q / ?u)) - q / ?u\<bar> * \<bar>?u\<bar>"
      by (metis abs_mult)
    with u show ?thesis by simp
  qed
  ultimately have "\<bar>round_double q - q\<bar> \<le> ?u / 2"
    unfolding rd by simp
  also have "\<dots> \<le> q / 2 ^ 53"
    using ulp_le [OF assms] by (simp add: field_simps)
  finally show ?thesis .
qed

lemma round_double_bounds:
  assumes "0 < q"
  shows "q * (1 - 1 / 2 ^ 53) \<le> round_double q" and "round_double q \<le> q * (1 + 1 / 2 ^ 53)"
proof -
  have split: "q * (1 - 1 / 2 ^ 53) = q - q / 2 ^ 53" "q * (1 + 1 / 2 ^ 53) = q + q / 2 ^ 53"
    by (simp_all add: algebra_simps)
  from round_double_error [OF assms]
  have "q - q / 2 ^ 53 \<le> round_double q" and "round_double q \<le> q + q / 2 ^ 53"
    by linarith+
  then show "q * (1 - 1 / 2 ^ 53) \<le> round_double q"
    and "round_double q \<le> q * (1 + 1 / 2 ^ 53)"
    unfolding split by simp_all
qed

lemma round_double_pos: "0 < q \<Longrightarrow> 0 < round_double q"
proof -
  assume q: "0 < q"
  then have "0 < q * (1 - 1 / 2 ^ 53)" by simp
  with round_double_bounds(1) [OF q] show ?thesis by simp
qed


lemma pct_pos:
  assumes "0 < cnt" and "0 < n"
  shows "0 < pct cnt n"
proof -
  have "0 < round_double (of_nat cnt)" and "0 < round_double (of_nat n)"
    using assms by (simp_all add: round_double_pos)
  then have "0 < round_double (of_nat cnt) / round_double (of_nat n)"
    by simp
  then have "0 < round_double (round_double (of_nat cnt) / round_double (of_nat n)) * 100"
    by (simp add: round_double_pos)
  then show ?thesis
    unfolding pct_def by (rule round_double_pos)
qed

text \<open>The four roundings together change the percentage by less than one part in
  \<open>2 ^ 50\<close>.\<close>

lemma pct_error:
  assumes "0 < cnt" and "0 < n"
  shows "\<bar>pct cnt n - 100 * of_nat cnt / of_nat n\<bar> \<le> (100 * of_nat cnt / of_nat n) / 2 ^ 50"
proof -
  define d :: rat where "d = 1 / 2 ^ 53"
  define c' :: rat where "c' = of_nat cnt"
  define n' :: rat where "n' = of_nat n"
  define a where "a = round_double c'"
  define b where "b = round_double n'"
  define x where "x = round_double (a / b)"
  define y where "y = round_double (x * 100)"
  have y: "pct cnt n = y"
    by (simp add: pct_def y_def x_def a_def b_def c'_def n'_def)
  have c: "0 < c'" and n: "0 < n'"
    using assms by (simp_all add: c'_def n'_def)
  have d: "0 < d" "d < 1"
    by (simp_all add: d_def power_divide)
  have a: "c' * (1 - d) \<le> a" "a \<le> c' * (1 + d)" "0 < a"
    using round_double_bounds [OF c] round_double_pos [OF c] by (simp_all add: a_def d_def)
  have b: "n' * (1 - d) \<le> b" "b \<le> n' * (1 + d)" "0 < b"
    using round_double_bounds [OF n] round_double_pos [OF n] by (simp_all add: b_def d_def)
  have q: "0 < a / b" using a(3) b(3) by simp
  have x: "a / b * (1 - d) \<le> x" "x \<le> a / b * (1 + d)" "0 < x"
    using round_double_bounds [OF q] round_double_pos [OF q] by (simp_all add: x_def d_def)
  have x100: "0 < x * 100" using x(3) by simp
  have y': "x * 100 * (1 - d) \<le> y" "y \<le> x * 100 * (1 + d)"
    using round_double_bounds [OF x100] by (simp_all add: y_def d_def)
  have q_up: "a / b \<le> c' * (1 + d) / (n' * (1 - d))"
    using a b n d by (intro frac_le) simp_all
  have q_lo: "c' * (1 - d) / (n' * (1 + d)) \<le> a / b"
    using a b c d by (intro frac_le) simp_all
  have "y \<le> x * 100 * (1 + d)" by (rule y'(2))
  also have "\<dots> \<le> (a / b * (1 + d)) * 100 * (1 + d)"
    using x(2) d by (intro mult_right_mono) simp_all
  also have "\<dots> \<le> (c' * (1 + d) / (n' * (1 - d)) * (1 + d)) * 100 * (1 + d)"
    using q_up d by (intro mult_right_mono) simp_all
  also have "\<dots> = (100 * c' / n') * ((1 + d) ^ 3 / (1 - d))"
    by (simp add: power3_eq_cube)
  finally have up: "y \<le> (100 * c' / n') * ((1 + d) ^ 3 / (1 - d))" .
  have "(100 * c' / n') * ((1 - d) ^ 3 / (1 + d)) =
        (c' * (1 - d) / (n' * (1 + d)) * (1 - d)) * 100 * (1 - d)"
    by (simp add: power3_eq_cube)
  also have "\<dots> \<le> (a / b * (1 - d)) * 100 * (1 - d)"
    using q_lo d by (intro mult_right_mono) simp_all
  also have "\<dots> \<le> x * 100 * (1 - d)"
    using x(1) d by (intro mult_right_mono) simp_all
  also have "\<dots> \<le> y" by (rule y'(1))
  finally have lo: "(100 * c' / n') * ((1 - d) ^ 3 / (1 + d)) \<le> y" .
  have k_up: "(1 + d) ^ 3 / (1 - d) \<le> 1 + 1 / 2 ^ 50"
    and k_lo: "1 - 1 / 2 ^ 50 \<le> (1 - d) ^ 3 / (1 + d)"
    by (simp_all add: d_def power_divide)
  define E where "E = 100 * c' / n'"
  have e: "0 \<le> E" using c n by (simp add: E_def)
  have "E * ((1 + d) ^ 3 / (1 - d)) \<le> E * (1 + 1 / 2 ^ 50)"
    using k_up e by (rule mult_left_mono)
  with up have "y \<le> E * (1 + 1 / 2 ^ 50)"
    unfolding E_def by (rule order_trans)
  moreover define t where "t = E / 2 ^ 50"
  moreover have "E * (1 + 1 / 2 ^ 50) = E + t"
    by (simp add: t_def algebra_simps)
  ultimately have hi: "y \<le> E + t"
    by simp
  have "E * (1 - 1 / 2 ^ 50) \<le> E * ((1 - d) ^ 3 / (1 + d))"
    using k_lo e by (rule mult_left_mono)
  from this lo have "E * (1 - 1 / 2 ^ 50) \<le> y"
    unfolding E_def by (rule order_trans)
  moreover have "E * (1 - 1 / 2 ^ 50) = E - t"
    by (simp add: t_def algebra_simps)
  ultimately have low: "E - t \<le> y"
    by simp
  from hi low have "\<bar>y - E\<bar> \<le> t"
    by linarith
  then have "\<bar>y - 100 * c' / n'\<bar> \<le> (100 * c' / n') / 2 ^ 50"
    unfolding t_def E_def .
  then show ?thesis
    unfolding y c'_def n'_def .
qed

text \<open>The percentages of the examples, as Python prints them: 100.0, 66.66666666666666,
  33.33333333333333, 30.0, 20.0 and 10.0.\<close>

lemma pct_examples:
  "pct 1 1 = 100" "pct 2 2 = 100"
  "pct 2 3 = 2345624805922133 / 35184372088832"
  "pct 1 3 = 2345624805922133 / 70368744177664"
  "pct 3 10 = 30" "pct 2 10 = 20" "pct 1 10 = 10"
  by (simp_all add: pct_def double_eval)

section \<open>Properties of the string functions\<close>

lemma starts_with_iff: "starts_with p s \<longleftrightarrow> (\<exists>b. s = p @ b)"
  by (induction p s rule: starts_with.induct) auto

lemma str_in_iff: "str_in p s \<longleftrightarrow> occurs_in p s"
proof (induction s)
  case Nil
  show ?case by (simp add: occurs_in_def)
next
  case (Cons c cs)
  have "occurs_in p (c # cs) \<longleftrightarrow> (\<exists>b. c # cs = p @ b) \<or> occurs_in p cs"
    unfolding occurs_in_def by (auto simp: Cons_eq_append_conv)
  with Cons show ?case by (simp only: str_in.simps starts_with_iff)
qed

section \<open>Properties of the theme classifier\<close>

lemma pattern_loop_iff: "pattern_loop patterns kw \<longleftrightarrow> (\<exists>p \<in> set patterns. occurs_in p kw)"
  by (induction patterns) (auto simp: str_in_iff)

lemma theme_loop_eq:
  "theme_loop taxonomy kw matched =
     matched @ map fst (filter (\<lambda>e. pattern_loop (snd e) kw) taxonomy)"
  by (induction taxonomy arbitrary: matched) auto

lemma filter_first_hit:
  assumes "i < length xs" and "P (xs ! i)" and "\<forall>j<i. \<not> P (xs ! j)"
  shows "filter P xs = xs ! i # filter P (drop (Suc i) xs)"
proof -
  have none: "filter P (take i xs) = []"
    using assms(1,3) by (auto simp: filter_empty_conv in_set_conv_nth)
  have "xs = take i xs @ xs ! i # drop (Suc i) xs"
    using assms(1) by (simp add: id_take_nth_drop)
  then have "filter P xs = filter P (take i xs @ xs ! i # drop (Suc i) xs)"
    by simp
  also have "\<dots> = xs ! i # filter P (drop (Suc i) xs)"
    using none assms(2) by simp
  finally show ?thesis .
qed

lemma assign_theme_first:
  assumes "keywords \<noteq> []" and "i < length taxonomy"
    and "\<exists>p \<in> set (snd (taxonomy ! i)). occurs_in p (lower keywords)"
    and "\<forall>j<i. \<forall>p \<in> set (snd (taxonomy ! j)). \<not> occurs_in p (lower keywords)"
  shows "assign_theme taxonomy keywords = fst (taxonomy ! i)"
proof -
  let ?P = "\<lambda>e. pattern_loop (snd e) (lower keywords)"
  have "filter ?P taxonomy = taxonomy ! i # filter ?P (drop (Suc i) taxonomy)"
    using assms(2,3,4) by (intro filter_first_hit) (auto simp: pattern_loop_iff)
  then show ?thesis
    using assms(1) by (simp add: assign_theme_def theme_loop_eq)
qed

lemma assign_theme_none:
  assumes "keywords \<noteq> []"
    and "\<forall>e \<in> set taxonomy. \<forall>p \<in> set (snd e). \<not> occurs_in p (lower keywords)"
  shows "assign_theme taxonomy keywords = ''Other''"
proof -
  have "filter (\<lambda>e. pattern_loop (snd e) (lower keywords)) taxonomy = []"
    using assms(2) by (auto simp: filter_empty_conv pattern_loop_iff)
  then show ?thesis
    using assms(1) by (simp add: assign_theme_def theme_loop_eq)
qed

lemma review_loop_eq:
  "review_loop keywords_list review_themes =
     review_themes @ map (assign_theme theme_patterns) keywords_list"
  by (induction keywords_list arbitrary: review_themes) auto

lemma identify_themes_manual_eq:
  "identify_themes_manual keywords_list df = map (assign_theme theme_patterns) keywords_list"
  by (simp add: identify_themes_manual_def review_loop_eq)

lemma theme_patterns_names: "map fst theme_patterns = taxonomy_order"
  by (simp add: theme_patterns_def taxonomy_order_def)

lemma triggers_of_nth:
  assumes "i < length taxonomy_order"
  shows "triggers_of (taxonomy_order ! i) = snd (theme_patterns ! i)"
proof -
  have "i \<in> {0, 1, 2, 3, 4, 5, 6}"
    using assms by (auto simp: taxonomy_order_def)
  then show ?thesis
    by (auto simp: triggers_of_def taxonomy_order_def theme_patterns_def)
qed

lemma has_trigger_code:
  "has_trigger name keywords = list_ex (\<lambda>p. str_in p (lower keywords)) (triggers_of name)"
  by (simp add: has_trigger_def list_ex_iff str_in_iff)

section \<open>Properties of the keyword extractor\<close>

lemma gather_Inr:
  assumes "\<forall>i \<in> set idxs. i < length xs"
  shows "gather xs idxs = Inr (map ((!) xs) idxs)"
  using assms by (induction idxs) auto

lemma strip_Nil: "strip [] = []"
  by (simp add: strip_def)

lemma keywords_loop_Inr:
  assumes "keywords_loop argsort feature_names m i texts acc = Inr res"
  shows "\<exists>tail. res = acc @ tail \<and> length tail = length texts \<and>
           (\<forall>n<length texts.
              (strip (texts ! n) = [] \<longrightarrow> tail ! n = []) \<and>
              (strip (texts ! n) \<noteq> [] \<longrightarrow>
                 i + n < length m \<and> document_keywords argsort feature_names (m ! (i + n)) = Inr (tail ! n)))"
  using assms
proof (induction texts arbitrary: i acc)
  case Nil
  then show ?case by simp
next
  case (Cons doc texts)
  show ?case
  proof (cases "strip doc = []")
    case True
    with Cons.prems have "keywords_loop argsort feature_names m (Suc i) texts (acc @ [[]]) = Inr res"
      by simp
    from Cons.IH [OF this] obtain tail where
      tail: "res = (acc @ [[]]) @ tail" "length tail = length texts"
        "\<forall>n<length texts.
              (strip (texts ! n) = [] \<longrightarrow> tail ! n = []) \<and>
              (strip (texts ! n) \<noteq> [] \<longrightarrow>
                 Suc i + n < length m \<and> document_keywords argsort feature_names (m ! (Suc i + n)) = Inr (tail ! n))"
      by blast
    have "\<forall>n<length (doc # texts).
              (strip ((doc # texts) ! n) = [] \<longrightarrow> ([] # tail) ! n = []) \<and>
              (strip ((doc # texts) ! n) \<noteq> [] \<longrightarrow>
                 i + n < length m \<and> document_keywords argsort feature_names (m ! (i + n)) = Inr (([] # tail) ! n))"
    proof (intro allI impI)
      fix n assume "n < length (doc # texts)"
      then show "(strip ((doc # texts) ! n) = [] \<longrightarrow> ([] # tail) ! n = []) \<and>
              (strip ((doc # texts) ! n) \<noteq> [] \<longrightarrow>
                 i + n < length m \<and> document_keywords argsort feature_names (m ! (i + n)) = Inr (([] # tail) ! n))"
        using True tail(3) by (cases n) auto
    qed
    with tail(1,2) show ?thesis
      by (intro exI [of _ "[] # tail"]) simp
  next
    case False
    with Cons.prems obtain s where
      i: "i < length m" and s: "document_keywords argsort feature_names (m ! i) = Inr s"
      and rest: "keywords_loop argsort feature_names m (Suc i) texts (acc @ [s]) = Inr res"
      by (auto split: if_splits sum.splits)
    from Cons.IH [OF rest] obtain tail where
      tail: "res = (acc @ [s]) @ tail" "length tail = length texts"
        "\<forall>n<length texts.
              (strip (texts ! n) = [] \<longrightarrow> tail ! n = []) \<and>
              (strip (texts ! n) \<noteq> [] \<longrightarrow>
                 Suc i + n < length m \<and> document_keywords argsort feature_names (m ! (Suc i + n)) = Inr (tail ! n))"
      by blast
    have "\<forall>n<length (doc # texts).
              (strip ((doc # texts) ! n) = [] \<longrightarrow> (s # tail) ! n = []) \<and>
              (strip ((doc # texts) ! n) \<noteq> [] \<longrightarrow>
                 i + n < length m \<and> document_keywords argsort feature_names (m ! (i + n)) = Inr ((s # tail) ! n))"
    proof (intro allI impI)
      fix n assume "n < length (doc # texts)"
      then show "(strip ((doc # texts) ! n) = [] \<longrightarrow> (s # tail) ! n = []) \<and>
              (strip ((doc # texts) ! n) \<noteq> [] \<longrightarrow>
                 i + n < length m \<and> document_keywords argsort feature_names (m ! (i + n)) = Inr ((s # tail) ! n))"
        using False i s tail(3) by (cases n) auto
    qed
    with tail(1,2) show ?thesis
      by (intro exI [of _ "s # tail"]) simp
  qed
qed

lemma try_block_Inr:
  assumes "try_block fit_transform argsort texts = Inr (keywords_list, feature_names)"
  shows "\<exists>m. fit_transform texts = Inr (feature_names, m) \<and>
             keywords_loop argsort feature_names m 0 texts [] = Inr keywords_list"
  using assms by (auto simp: try_block_def split: sum.splits prod.splits)

text \<open>Whatever the vectorizer does, the extractor returns one keyword string per row, and
  the empty string for every row whose normalized text is blank.\<close>

lemma extract_keywords_tfidf_total:
  assumes "''review'' \<in> set (columns df)"
  shows "\<exists>keywords_list feature_names.
           extract_keywords_tfidf fit_transform argsort df = Inr (keywords_list, feature_names) \<and>
           length keywords_list = length (rows df) \<and>
           (\<forall>n<length (rows df).
              strip (preprocess_text (review (rows df ! n))) = [] \<longrightarrow> keywords_list ! n = [])"
proof -
  let ?texts = "map (\<lambda>r. preprocess_text (review r)) (rows df)"
  show ?thesis
  proof (cases "try_block fit_transform argsort ?texts")
    case (Inl e)
    then show ?thesis
      using assms by (simp add: extract_keywords_tfidf_def)
  next
    case (Inr result)
    obtain keywords_list feature_names where r: "result = (keywords_list, feature_names)"
      by (cases result)
    from try_block_Inr [OF Inr [unfolded r]] obtain m where
      "keywords_loop argsort feature_names m 0 ?texts [] = Inr keywords_list"
      by blast
    from keywords_loop_Inr [OF this] have
      "length keywords_list = length (rows df)"
      "\<forall>n<length (rows df).
         strip (preprocess_text (review (rows df ! n))) = [] \<longrightarrow> keywords_list ! n = []"
      by auto
    then show ?thesis
      using assms Inr r by (simp add: extract_keywords_tfidf_def)
  qed
qed

section \<open>Properties of the per-bank classification\<close>

lemma unique_loop_props:
  assumes "distinct seen"
  shows "distinct (unique_loop xs seen) \<and> set (unique_loop xs seen) = set seen \<union> set xs"
  using assms by (induction xs arbitrary: seen) auto

lemma distinct_unique: "distinct (unique xs)"
  using unique_loop_props [of "[]" xs] by (simp add: unique_def)

lemma set_unique: "set (unique xs) = set xs"
  using unique_loop_props [of "[]" xs] by (simp add: unique_def)

lemma dict_set_append:
  assumes "k \<notin> fst ` set d"
  shows "dict_set d k v = d @ [(k, v)]"
  using assms by (induction d) auto

lemma bank_index_bound: "i \<in> set (bank_index df b) \<Longrightarrow> i < length (rows df)"
  by (simp add: bank_index_def)

lemma bank_loop_eq:
  assumes "''review'' \<in> set (columns df)" and "length (rows df) \<le> length keywords_list"
    and "distinct banks" and "set banks \<inter> fst ` set bank_themes = {}"
  shows "bank_loop df keywords_list banks bank_themes =
           Inr (bank_themes @
                map (\<lambda>b. (b, map (\<lambda>i. assign_theme theme_patterns (keywords_list ! i))
                                (bank_index df b))) banks)"
  using assms(3,4)
proof (induction banks arbitrary: bank_themes)
  case Nil
  then show ?case by simp
next
  case (Cons b banks)
  let ?themes = "map (\<lambda>i. assign_theme theme_patterns (keywords_list ! i)) (bank_index df b)"
  have g: "gather keywords_list (bank_index df b) = Inr (map ((!) keywords_list) (bank_index df b))"
    using assms(2) by (intro gather_Inr) (auto dest: bank_index_bound)
  have fresh: "b \<notin> fst ` set bank_themes"
    using Cons.prems(2) by auto
  have step: "bank_loop df keywords_list (b # banks) bank_themes =
                bank_loop df keywords_list banks (bank_themes @ [(b, ?themes)])"
    using assms(1) g fresh
    by (simp add: identify_themes_manual_eq dict_set_append comp_def)
  have "bank_loop df keywords_list banks (bank_themes @ [(b, ?themes)]) =
          Inr ((bank_themes @ [(b, ?themes)]) @
               map (\<lambda>b. (b, map (\<lambda>i. assign_theme theme_patterns (keywords_list ! i))
                               (bank_index df b))) banks)"
    using Cons.prems by (intro Cons.IH) auto
  with step show ?case by simp
qed

lemma map_of_graph:
  assumes "k \<in> set ks"
  shows "map_of (map (\<lambda>b. (b, g b)) ks) k = Some (g k)"
  using assms by (induction ks) auto

section \<open>Properties of the tallies\<close>

lemma in_keys_iff: "k \<in> fst ` set table \<longleftrightarrow> map_of table k \<noteq> None"
  by (simp add: map_of_eq_None_iff)

lemma bump_keys_old:
  "k \<in> fst ` set table \<Longrightarrow> map fst (bump k table) = map fst table"
proof (induction table)
  case Nil
  then show ?case by simp
next
  case (Cons e table)
  obtain k' c where e: "e = (k', c)" by (cases e)
  show ?case
  proof (cases "k' = k")
    case True
    with e show ?thesis by simp
  next
    case False
    with Cons.prems e have "k \<in> fst ` set table" by auto
    with Cons.IH False e show ?thesis by simp
  qed
qed

lemma bump_keys_new:
  "k \<notin> fst ` set table \<Longrightarrow> map fst (bump k table) = map fst table @ [k]"
  by (induction table) auto

lemma bump_key_set: "fst ` set (bump k table) = insert k (fst ` set table)"
proof (cases "k \<in> fst ` set table")
  case True
  from bump_keys_old [OF this] have "set (map fst (bump k table)) = set (map fst table)"
    by simp
  with True show ?thesis by auto
next
  case False
  from bump_keys_new [OF this] have "set (map fst (bump k table)) = set (map fst table @ [k])"
    by simp
  then show ?thesis by auto
qed

lemma bump_distinct: "distinct (map fst table) \<Longrightarrow> distinct (map fst (bump k table))"
  by (cases "k \<in> fst ` set table") (simp_all add: bump_keys_old bump_keys_new)

lemma map_of_bump:
  "map_of (bump k table) k' =
     (if k' = k then Some (case map_of table k of None \<Rightarrow> 1 | Some c \<Rightarrow> Suc c)
      else map_of table k')"
  by (induction table) auto

lemma count_loop_distinct:
  "distinct (map fst table) \<Longrightarrow> distinct (map fst (count_loop col table))"
proof (induction col table rule: count_loop.induct)
  case (3 x col table)
  then show ?case by (simp add: bump_distinct)
qed simp_all

lemma count_loop_map_of:
  "map_of (count_loop col table) k =
     (if Some k \<in> set col \<or> k \<in> fst ` set table
      then Some (count_list col (Some k) + (case map_of table k of None \<Rightarrow> 0 | Some c \<Rightarrow> c))
      else None)"
proof (induction col table rule: count_loop.induct)
  case (1 table)
  show ?case
    by (cases "map_of table k") (auto simp: in_keys_iff)
next
  case (2 col table)
  then show ?case by simp
next
  case (3 x col table)
  show ?case
    unfolding count_loop.simps "3.IH" bump_key_set
    by (auto simp: map_of_bump in_keys_iff split: option.splits)
qed

lemma count_list_theme:
  "count_list (map theme segment) (Some name) = theme_count segment name"
  by (induction segment) (auto simp: theme_count_def)

lemma value_counts_set: "set (value_counts col) = set (count_loop col [])"
  by (simp add: value_counts_def)

lemma value_counts_distinct: "distinct (map fst (value_counts col))"
proof -
  have "mset (map fst (value_counts col)) = mset (map fst (count_loop col []))"
    by (simp add: value_counts_def)
  moreover have "distinct (map fst (count_loop col []))"
    by (rule count_loop_distinct) simp
  ultimately show ?thesis
    by (metis mset_eq_imp_distinct_iff)
qed

lemma value_counts_entry:
  "(k, c) \<in> set (value_counts col) \<longleftrightarrow> Some k \<in> set col \<and> c = count_list col (Some k)"
proof -
  have d: "distinct (map fst (count_loop col []))"
    by (rule count_loop_distinct) simp
  have "(k, c) \<in> set (value_counts col) \<longleftrightarrow> map_of (count_loop col []) k = Some c"
    using d by (simp add: value_counts_set)
  also have "\<dots> \<longleftrightarrow> Some k \<in> set col \<and> c = count_list col (Some k)"
    by (auto simp: count_loop_map_of)
  finally show ?thesis .
qed

lemma value_counts_positive:
  assumes "(k, c) \<in> set (value_counts col)"
  shows "1 \<le> c"
proof -
  from assms have "Some k \<in> set col" and "c = count_list col (Some k)"
    by (simp_all add: value_counts_entry)
  then show ?thesis
    by (metis count_list_0_iff linorder_not_less less_one)
qed

lemma value_counts_sorted:
  "sorted_wrt (\<lambda>a b. snd b \<le> snd a) (value_counts col)"
proof -
  have "sorted (map (\<lambda>kc. - int (snd kc)) (value_counts col))"
    by (simp add: value_counts_def)
  then show ?thesis
    by (simp add: sorted_map sorted_wrt_iff_nth_less)
qed

section \<open>Properties of the recommendation mapper\<close>

lemma pain_point_loop_eq:
  "pain_point_loop ps recommendations =
     recommendations @ List.map_filter (\<lambda>p. pain_point_rule (ins_theme p)) ps"
  by (induction ps arbitrary: recommendations)
     (auto split: option.splits)

lemma driver_loop_eq:
  "driver_loop ds recommendations =
     recommendations @ List.map_filter (\<lambda>d. driver_rule (ins_theme d)) ds"
  by (induction ds arbitrary: recommendations)
     (auto split: option.splits)

section \<open>Properties of the insight ranker\<close>

lemma sentiment_loop_eq:
  "sentiment_loop tally n lst = lst @ map (mk_insight n) (filter eligible tally)"
  by (induction tally n lst rule: sentiment_loop.induct) (auto simp: eligible_def mk_insight_def)

lemma rating_loop_eq:
  assumes "distinct (map fst tally)"
  shows "rating_loop tally n lst =
           lst @ map (mk_insight n)
                   (filter (\<lambda>kc. eligible kc \<and> fst kc \<notin> ins_theme ` set lst) tally)"
  using assms
proof (induction tally arbitrary: lst)
  case Nil
  then show ?case by simp
next
  case (Cons e tally)
  obtain name cnt where e: "e = (name, cnt)" by (cases e)
  from Cons.prems e have fresh: "name \<notin> fst ` set tally" and d: "distinct (map fst tally)"
    by auto
  show ?case
  proof (cases "eligible e \<and> name \<notin> ins_theme ` set lst")
    case True
    let ?new = "mk_insight n e"
    have same: "filter (\<lambda>kc. eligible kc \<and> fst kc \<notin> ins_theme ` set (lst @ [?new])) tally =
                filter (\<lambda>kc. eligible kc \<and> fst kc \<notin> ins_theme ` set lst) tally"
      using fresh e by (intro filter_cong) (auto simp: mk_insight_def)
    have "rating_loop (e # tally) n lst = rating_loop tally n (lst @ [?new])"
      using True e by (auto simp: eligible_def mk_insight_def list_ex_iff image_iff)
    also have "\<dots> = (lst @ [?new]) @ map (mk_insight n)
                   (filter (\<lambda>kc. eligible kc \<and> fst kc \<notin> ins_theme ` set (lst @ [?new])) tally)"
      by (rule Cons.IH [OF d])
    finally show ?thesis
      using True e same by simp
  next
    case False
    then have "rating_loop (e # tally) n lst = rating_loop tally n lst"
      using e by (auto simp: eligible_def list_ex_iff image_iff)
    with Cons.IH [OF d, of lst] False e show ?thesis
      by auto
  qed
qed

lemma value_counts_Nil: "value_counts [] = []"
  by (simp add: value_counts_def)

lemma sentiment_pass_eq: "sentiment_pass segment lst = lst @ seed_list segment"
  by (cases segment)
     (simp_all add: sentiment_pass_def seed_list_def sentiment_loop_eq value_counts_Nil)

lemma distinct_take_keys: "distinct (map fst (take n (value_counts col)))"
  using value_counts_distinct [of col] by (simp add: take_map [symmetric])

lemma rating_pass_eq:
  "rating_pass cols segment lst =
     lst @ (if ''theme'' \<in> set cols then rating_extras segment lst else [])"
  by (cases segment)
     (simp_all add: rating_pass_def rating_extras_def rating_loop_eq distinct_take_keys
        value_counts_Nil)

lemma seeded_eq:
  "seeded df bank_df =
     (if ''sentiment_label'' \<in> set (columns df) \<and> ''theme'' \<in> set (columns df)
      then \<lparr>drivers = seed_list (positive_reviews bank_df),
            pain_points = seed_list (negative_reviews bank_df)\<rparr>
      else \<lparr>drivers = [], pain_points = []\<rparr>)"
  by (simp add: seeded_def sentiment_block_def sentiment_pass_eq)

text \<open>The result of \<open>identify_drivers_and_pain_points\<close> in closed form: the seeded lists,
  each followed by what its rating segment adds.\<close>

lemma identify_closed_form:
  assumes "select_bank df bank_name = Inr bank_df"
  shows "identify_drivers_and_pain_points df bank_name =
           Inr \<lparr>drivers = drivers (seeded df bank_df) @
                   (if ''rating'' \<in> set (columns df) \<and> ''theme'' \<in> set (columns df)
                    then rating_extras (high_ratings bank_df) (drivers (seeded df bank_df))
                    else []),
                pain_points = pain_points (seeded df bank_df) @
                   (if ''rating'' \<in> set (columns df) \<and> ''theme'' \<in> set (columns df)
                    then rating_extras (low_ratings bank_df) (pain_points (seeded df bank_df))
                    else [])\<rparr>"
  using assms
  by (simp add: identify_drivers_and_pain_points_def rating_block_def rating_pass_eq
        seeded_def [symmetric])

lemma themes_of_insights: "map ins_theme (map (mk_insight n) kcs) = map fst kcs"
  by (simp add: mk_insight_def comp_def)

lemma seed_list_distinct: "distinct (map ins_theme (seed_list segment))"
  unfolding seed_list_def themes_of_insights
  by (intro distinct_map_filter distinct_take_keys)

lemma rating_extras_distinct: "distinct (map ins_theme (rating_extras segment lst))"
  unfolding rating_extras_def themes_of_insights
  by (intro distinct_map_filter distinct_take_keys)

lemma rating_extras_fresh:
  "ins_theme ` set (rating_extras segment lst) \<inter> ins_theme ` set lst = {}"
  by (auto simp: rating_extras_def mk_insight_def)

lemma appended_distinct:
  assumes "distinct (map ins_theme lst)"
  shows "distinct (map ins_theme (lst @ rating_extras segment lst))"
  using assms rating_extras_distinct [of segment lst] rating_extras_fresh [of segment lst]
  by auto

lemma seed_list_length: "length (seed_list segment) \<le> 3"
proof -
  have "length (seed_list segment) \<le> length (take 3 (value_counts (map theme segment)))"
    unfolding seed_list_def length_map by (rule length_filter_le)
  then show ?thesis by simp
qed

lemma rating_extras_length: "length (rating_extras segment lst) \<le> 2"
proof -
  have "length (rating_extras segment lst) \<le> length (take 2 (value_counts (map theme segment)))"
    unfolding rating_extras_def length_map by (rule length_filter_le)
  then show ?thesis by simp
qed

lemma tally_entry_reports:
  assumes "kc \<in> set (value_counts (map theme segment))"
  shows "reports_segment segment (mk_insight (length segment) kc)"
    and "1 \<le> snd kc" and "0 < pct (snd kc) (length segment)"
proof -
  obtain k c where kc: "kc = (k, c)" by (cases kc)
  from assms kc have mem: "Some k \<in> set (map theme segment)"
    and c: "c = theme_count segment k"
    by (simp_all add: value_counts_entry count_list_theme)
  from assms kc show pos: "1 \<le> snd kc"
    using value_counts_positive [of k c] by simp
  from mem have "segment \<noteq> []" by auto
  then have nonempty: "0 < length segment" by simp
  with pos show "0 < pct (snd kc) (length segment)"
    by (intro pct_pos) simp_all
  show "reports_segment segment (mk_insight (length segment) kc)"
    using kc c nonempty by (simp add: reports_segment_def mk_insight_def)
qed

lemma seed_list_entry:
  assumes "i \<in> set (seed_list segment)"
  shows "reports_segment segment i \<and> 1 \<le> ins_count i \<and> 0 < ins_percentage i \<and>
         ins_theme i \<noteq> [] \<and> ins_theme i \<noteq> ''Other''"
proof -
  from assms obtain kc where kc: "kc \<in> set (take 3 (value_counts (map theme segment)))"
    and e: "eligible kc" and i: "i = mk_insight (length segment) kc"
    by (auto simp: seed_list_def)
  from kc have "kc \<in> set (value_counts (map theme segment))"
    by (rule in_set_takeD)
  from tally_entry_reports [OF this] e i show ?thesis
    by (simp add: mk_insight_def eligible_def)
qed

lemma rating_extras_entry:
  assumes "i \<in> set (rating_extras segment lst)"
  shows "reports_segment segment i \<and> 1 \<le> ins_count i \<and> 0 < ins_percentage i \<and>
         ins_theme i \<noteq> [] \<and> ins_theme i \<noteq> ''Other''"
proof -
  from assms obtain kc where kc: "kc \<in> set (take 2 (value_counts (map theme segment)))"
    and e: "eligible kc" and i: "i = mk_insight (length segment) kc"
    by (auto simp: rating_extras_def)
  from kc have "kc \<in> set (value_counts (map theme segment))"
    by (rule in_set_takeD)
  from tally_entry_reports [OF this] e i show ?thesis
    by (simp add: mk_insight_def eligible_def)
qed

lemma seeded_distinct:
  "distinct (map ins_theme (drivers (seeded df bank_df)))"
  "distinct (map ins_theme (pain_points (seeded df bank_df)))"
  by (simp_all add: seeded_eq seed_list_distinct)

lemma seeded_length:
  "length (drivers (seeded df bank_df)) \<le> 3"
  "length (pain_points (seeded df bank_df)) \<le> 3"
  by (simp_all add: seeded_eq seed_list_length)

lemma same_theme_same_entry:
  assumes "distinct (map ins_theme xs)" and "s \<in> set xs" and "i \<in> set xs"
    and "ins_theme i = ins_theme s"
  shows "i = s"
  using assms by (auto simp: distinct_map dest: inj_onD)

lemma guarded_extras_distinct:
  assumes "distinct (map ins_theme lst)"
  shows "distinct (map ins_theme (lst @ (if c then rating_extras segment lst else [])))"
proof (cases c)
  case True
  with appended_distinct [OF assms, of segment] show ?thesis by simp
next
  case False
  with assms show ?thesis by simp
qed

lemma guarded_extras_length:
  "length (if c then rating_extras segment lst else []) \<le> 2"
  by (cases c) (simp_all add: rating_extras_length)

lemma guarded_extras_entry:
  assumes "i \<in> set (if c then rating_extras segment lst else [])"
  shows "reports_segment segment i \<and> 1 \<le> ins_count i \<and> 0 < ins_percentage i \<and>
         ins_theme i \<noteq> [] \<and> ins_theme i \<noteq> ''Other''"
proof (cases c)
  case True
  with assms have "i \<in> set (rating_extras segment lst)" by simp
  then show ?thesis by (rule rating_extras_entry)
next
  case False
  with assms show ?thesis by simp
qed

lemma seeded_reports:
  "\<forall>i \<in> set (drivers (seeded df bank_df)). reports_segment (positive_reviews bank_df) i"
  "\<forall>i \<in> set (pain_points (seeded df bank_df)). reports_segment (negative_reviews bank_df) i"
  by (auto simp: seeded_eq dest: seed_list_entry)

lemma seeded_eligible:
  "\<forall>i \<in> set (drivers (seeded df bank_df)) \<union> set (pain_points (seeded df bank_df)).
     ins_theme i \<noteq> [] \<and> ins_theme i \<noteq> ''Other''"
  by (auto simp: seeded_eq dest: seed_list_entry split: if_splits)

text \<open>What the tally of a segment is: one entry for every theme that occurs in the segment,
  with the number of its reviews, in descending order of that number.\<close>

lemma tally_of_segment:
  "sorted_wrt (\<lambda>a b. snd b \<le> snd a) (value_counts (map theme segment))"
  "distinct (map fst (value_counts (map theme segment)))"
  "(k, c) \<in> set (value_counts (map theme segment)) \<longleftrightarrow> c = theme_count segment k \<and> 1 \<le> c"
proof -
  show "sorted_wrt (\<lambda>a b. snd b \<le> snd a) (value_counts (map theme segment))"
    by (rule value_counts_sorted)
  show "distinct (map fst (value_counts (map theme segment)))"
    by (rule value_counts_distinct)
  have "Some k \<in> set (map theme segment) \<longleftrightarrow> 1 \<le> theme_count segment k"
    by (induction segment) (auto simp: theme_count_def)
  then show "(k, c) \<in> set (value_counts (map theme segment)) \<longleftrightarrow>
               c = theme_count segment k \<and> 1 \<le> c"
    by (auto simp: value_counts_entry count_list_theme)
qed

section \<open>Evaluating the functions on concrete inputs\<close>

lemmas insights_eval =
  identify_drivers_and_pain_points_def select_bank_def sentiment_block_def rating_block_def
  sentiment_pass_def rating_pass_def positive_reviews_def negative_reviews_def
  low_ratings_def high_ratings_def value_counts_def pct_def double_eval

lemma example_frame_insights:
  "identify_drivers_and_pain_points example_frame (Some ''CBE'') =
     Inr \<lparr>drivers = [\<lparr>ins_theme = ''Transaction Performance'', ins_count = 1,
                       ins_percentage = 100\<rparr>],
          pain_points = [\<lparr>ins_theme = ''Account Access Issues'', ins_count = 2,
                           ins_percentage = 100\<rparr>]\<rparr>"
  by (simp add: example_frame_def insights_eval)

lemma mixed_frame_select:
  "select_bank mixed_frame (Some ''CBE'') = Inr (rows mixed_frame)"
  by (simp add: select_bank_def mixed_frame_def)

lemma mixed_frame_insights:
  "identify_drivers_and_pain_points mixed_frame (Some ''CBE'') =
     Inr \<lparr>drivers = [\<lparr>ins_theme = ''Transaction Performance'', ins_count = 2,
                       ins_percentage = 2345624805922133 / 35184372088832\<rparr>,
                     \<lparr>ins_theme = ''Customer Support'', ins_count = 1,
                       ins_percentage = 2345624805922133 / 70368744177664\<rparr>],
          pain_points = [\<lparr>ins_theme = ''Account Access Issues'', ins_count = 2,
                           ins_percentage = 100\<rparr>,
                         \<lparr>ins_theme = ''Customer Support'', ins_count = 1,
                           ins_percentage = 2345624805922133 / 70368744177664\<rparr>]\<rparr>"
  by (simp add: mixed_frame_def insights_eval)

lemma mixed_frame_seeded:
  "seeded mixed_frame (rows mixed_frame) =
     \<lparr>drivers = [\<lparr>ins_theme = ''Transaction Performance'', ins_count = 2,
                   ins_percentage = 2345624805922133 / 35184372088832\<rparr>,
                 \<lparr>ins_theme = ''Customer Support'', ins_count = 1,
                   ins_percentage = 2345624805922133 / 70368744177664\<rparr>],
      pain_points = [\<lparr>ins_theme = ''Account Access Issues'', ins_count = 2,
                       ins_percentage = 100\<rparr>]\<rparr>"
  by (simp add: seeded_def mixed_frame_def insights_eval)

lemma mixed_frame_segments:
  "length (negative_reviews (rows mixed_frame)) = 2"
  "length (positive_reviews (rows mixed_frame)) = 3"
  "length (low_ratings (rows mixed_frame)) = 3"
  "length (high_ratings (rows mixed_frame)) = 2"
  by (simp_all add: mixed_frame_def insights_eval)

lemma displaced_frame_select:
  "select_bank displaced_frame (Some ''CBE'') = Inr (rows displaced_frame)"
  by (simp add: select_bank_def displaced_frame_def negative_row_def)

lemma displaced_frame_negative:
  "negative_reviews (rows displaced_frame) = rows displaced_frame"
  by (simp add: negative_reviews_def displaced_frame_def negative_row_def)

lemma displaced_frame_tally:
  "value_counts (map theme (rows displaced_frame)) =
     [(''Other'', 4), (''Account Access Issues'', 3), (''Transaction Performance'', 2),
      (''Customer Support'', 1)]"
  by (simp add: displaced_frame_def negative_row_def value_counts_def)

lemma displaced_frame_seeded:
  "seeded displaced_frame (rows displaced_frame) =
     \<lparr>drivers = [],
      pain_points = [\<lparr>ins_theme = ''Account Access Issues'', ins_count = 3,
                       ins_percentage = 30\<rparr>,
                     \<lparr>ins_theme = ''Transaction Performance'', ins_count = 2,
                       ins_percentage = 20\<rparr>]\<rparr>"
  by (simp add: seeded_def displaced_frame_def negative_row_def insights_eval)

lemma displaced_frame_insights:
  "identify_drivers_and_pain_points displaced_frame (Some ''CBE'') =
     Inr \<lparr>drivers = [],
          pain_points = [\<lparr>ins_theme = ''Account Access Issues'', ins_count = 3,
                           ins_percentage = 30\<rparr>,
                         \<lparr>ins_theme = ''Transaction Performance'', ins_count = 2,
                           ins_percentage = 20\<rparr>]\<rparr>"
  by (simp add: displaced_frame_def negative_row_def insights_eval)

lemma displaced_frame_claimed:
  "claimed_seed_list (rows displaced_frame) =
     [\<lparr>ins_theme = ''Account Access Issues'', ins_count = 3, ins_percentage = 30\<rparr>,
      \<lparr>ins_theme = ''Transaction Performance'', ins_count = 2, ins_percentage = 20\<rparr>,
      \<lparr>ins_theme = ''Customer Support'', ins_count = 1, ins_percentage = 10\<rparr>]"
  by (simp add: claimed_seed_list_def displaced_frame_def negative_row_def value_counts_def
        mk_insight_def pct_def double_eval)

lemma tie_frame_texts:
  "map (\<lambda>r. preprocess_text (review r)) (rows tie_frame) = [''login failed'', ''login failed'']"
  by (simp add: tie_frame_def preprocess_text_def lower_def lower_char_def is_alpha_def
        is_space_def strip_def)

lemma tie_argsort: "stable_argsort [1/2, 1/2] = [0, 1]"
  by (simp add: stable_argsort_def)

lemma tie_is_argsort: "is_argsort [1/2, 1/2] (stable_argsort [1/2, 1/2])"
  by (simp add: tie_argsort is_argsort_def)

lemma tie_top_indices: "top_indices (stable_argsort [1/2, 1/2]) = [1, 0]"
  by (simp add: tie_argsort top_indices_def)

lemma tie_document_keywords:
  "document_keywords stable_argsort [''failed'', ''login''] [1/2, 1/2] = Inr ''login, failed''"
  by (simp add: document_keywords_def tie_top_indices)

lemma tie_claimed_keywords:
  "claimed_keywords [''failed'', ''login''] [1/2, 1/2] = ''failed, login''"
  by (simp add: claimed_keywords_def claimed_top_indices_def)

lemma tie_frame_keywords:
  "extract_keywords_tfidf tie_vectorizer stable_argsort tie_frame =
     Inr ([''login, failed'', ''login, failed''], [''failed'', ''login''])"
proof -
  have "strip ''login failed'' \<noteq> []"
    by (simp add: strip_def is_space_def)
  then have "try_block tie_vectorizer stable_argsort [''login failed'', ''login failed''] =
          Inr ([''login, failed'', ''login, failed''], [''failed'', ''login''])"
    by (simp add: try_block_def tie_vectorizer_def tie_document_keywords)
  then show ?thesis
    by (simp add: extract_keywords_tfidf_def tie_frame_texts) (simp add: tie_frame_def)
qed

section \<open>Properties of the selection of keywords\<close>

lemma is_argsort_length: "is_argsort scores order \<Longrightarrow> length order = length scores"
  by (metis is_argsort_def length_sort length_upt minus_nat.diff_0)

lemma is_argsort_set: "is_argsort scores order \<Longrightarrow> set order = {..<length scores}"
  by (metis is_argsort_def set_sort atLeast_upt)

lemma is_argsort_distinct: "is_argsort scores order \<Longrightarrow> distinct order"
  by (metis is_argsort_def distinct_sort distinct_upt)

lemma is_argsort_ascending:
  "is_argsort scores order \<Longrightarrow> sorted_wrt (\<lambda>a b. scores ! a \<le> scores ! b) order"
  by (simp add: is_argsort_def sorted_map)

lemma top_indices_length:
  "is_argsort scores order \<Longrightarrow> length (top_indices order) = min 10 (length scores)"
  by (simp add: top_indices_def is_argsort_length)

lemma top_indices_distinct: "is_argsort scores order \<Longrightarrow> distinct (top_indices order)"
  by (simp add: top_indices_def is_argsort_distinct)

lemma top_indices_subset:
  assumes "is_argsort scores order"
  shows "set (top_indices order) \<subseteq> {..<length scores}"
  using set_drop_subset [of "length order - 10" order] is_argsort_set [OF assms]
  by (simp add: top_indices_def)

lemma top_indices_descending:
  assumes "is_argsort scores order"
  shows "sorted_wrt (\<lambda>a b. scores ! b \<le> scores ! a) (top_indices order)"
proof -
  have "sorted_wrt (\<lambda>a b. scores ! a \<le> scores ! b) (drop (length order - 10) order)"
    using is_argsort_ascending [OF assms] by (rule sorted_wrt_drop)
  then show ?thesis
    by (simp add: top_indices_def sorted_wrt_rev)
qed

lemma top_indices_outside:
  assumes "is_argsort scores order"
    and "j < length scores" and "j \<notin> set (top_indices order)" and "t \<in> set (top_indices order)"
  shows "scores ! j \<le> scores ! t"
proof -
  let ?k = "length order - 10"
  have "sorted_wrt (\<lambda>a b. scores ! a \<le> scores ! b) (take ?k order @ drop ?k order)"
    using is_argsort_ascending [OF assms(1)] by simp
  then have cross: "\<forall>a \<in> set (take ?k order). \<forall>b \<in> set (drop ?k order).
                      scores ! a \<le> scores ! b"
    unfolding sorted_wrt_append by blast
  have "j \<in> set (take ?k order @ drop ?k order)"
    using assms(2) is_argsort_set [OF assms(1)] by simp
  then have "j \<in> set (take ?k order) \<or> j \<in> set (drop ?k order)"
    by (simp only: set_append Un_iff)
  with assms(3) have "j \<in> set (take ?k order)"
    by (auto simp: top_indices_def)
  moreover have "t \<in> set (drop ?k order)"
    using assms(4) by (simp add: top_indices_def)
  ultimately show ?thesis using cross by blast
qed

lemma strip_idem: "strip (strip s) = strip s"
proof -
  define u where "u = dropWhile is_space s"
  define v where "v = dropWhile is_space (rev u)"
  have t: "strip s = rev v" by (simp add: strip_def u_def v_def)
  show ?thesis
  proof (cases "v = []")
    case True
    with t have "strip s = []" by simp
    then show ?thesis by (simp add: strip_Nil)
  next
    case False
    have "rev u = takeWhile is_space (rev u) @ v"
      unfolding v_def by simp
    then have parts: "u = rev v @ rev (takeWhile is_space (rev u))"
      by (metis rev_append rev_rev_ident)
    have "u \<noteq> []"
    proof
      assume "u = []"
      then have "v = []" unfolding v_def by simp
      with False show False by simp
    qed
    then have "\<not> is_space (hd u)"
      unfolding u_def by (rule hd_dropWhile)
    moreover have "hd (rev v) = hd u"
      using False parts by (metis hd_append2 rev_is_Nil_conv)
    ultimately have head_ok: "dropWhile is_space (rev v) = rev v"
      by (simp add: dropWhile_eq_self_iff)
    have "\<not> is_space (hd v)"
      using False unfolding v_def by (rule hd_dropWhile)
    then have tail_ok: "dropWhile is_space v = v"
      by (simp add: dropWhile_eq_self_iff)
    have "strip (rev v) = rev v"
      unfolding strip_def head_ok by (simp add: tail_ok)
    with t show ?thesis by simp
  qed
qed

lemma strip_preprocess_text: "strip (preprocess_text x) = preprocess_text x"
  by (cases x) (simp_all add: preprocess_text_def strip_idem strip_Nil)

lemma select_keywords_Inr:
  assumes "\<forall>idx \<in> set idxs. idx < length scores \<and> idx < length feature_names"
  shows "select_keywords feature_names scores idxs =
           Inr (map ((!) feature_names) (filter (\<lambda>j. 0 < scores ! j) idxs))"
  using assms by (induction idxs) auto

lemma document_keywords_Inr:
  assumes "is_argsort scores (argsort scores)" and "length scores \<le> length feature_names"
  shows "document_keywords argsort feature_names scores =
           Inr (join '', '' (take 5 (map ((!) feature_names)
                  (filter (\<lambda>j. 0 < scores ! j) (top_indices (argsort scores))))))"
proof -
  have "\<forall>idx \<in> set (top_indices (argsort scores)).
          idx < length scores \<and> idx < length feature_names"
    using top_indices_subset [OF assms(1)] assms(2) by auto
  from select_keywords_Inr [OF this] show ?thesis
    by (simp add: document_keywords_def)
qed

lemma keywords_loop_total:
  assumes "i + length texts \<le> length m"
    and "\<forall>scores \<in> set m. is_argsort scores (argsort scores) \<and>
                           length scores \<le> length feature_names"
  shows "\<exists>res. keywords_loop argsort feature_names m i texts acc = Inr res"
  using assms(1)
proof (induction texts arbitrary: i acc)
  case Nil
  then show ?case by simp
next
  case (Cons doc texts)
  from Cons.prems have i: "i < length m" and rest: "Suc i + length texts \<le> length m"
    by simp_all
  from i assms(2) have "is_argsort (m ! i) (argsort (m ! i))"
    and "length (m ! i) \<le> length feature_names"
    by simp_all
  from document_keywords_Inr [where scores = "m ! i" and argsort = argsort, OF this]
  obtain s where
    s: "document_keywords argsort feature_names (m ! i) = Inr s"
    by blast
  from Cons.IH [OF rest] have
    "\<exists>res. keywords_loop argsort feature_names m (Suc i) texts (acc @ [s]) = Inr res"
    "\<exists>res. keywords_loop argsort feature_names m (Suc i) texts (acc @ [[]]) = Inr res"
    by blast+
  with i s show ?case by simp
qed

section \<open>Claims about the theme classifier\<close>

text \<open>
  C1. The seven themes are declared in the order Account Access Issues, Transaction
  Performance, User Interface and Experience, Customer Support, App Reliability, Feature
  Requests, Security and Privacy. For a non-empty keyword string, the theme that
  \<open>identify_themes_manual\<close> assigns is the first theme in that order one of whose trigger
  substrings occurs in the lower-cased keyword string. In particular a keyword string with
  a trigger of Account Access Issues is classified Account Access Issues whatever triggers
  of Customer Support (or of any other theme) it also contains, and however many.
\<close>

theorem first_match_wins:
  "map fst theme_patterns = taxonomy_order \<and>
   (\<forall>keywords_list (df :: dataframe) n i.
      n < length keywords_list \<longrightarrow> keywords_list ! n \<noteq> [] \<longrightarrow>
      i < length taxonomy_order \<longrightarrow>
      has_trigger (taxonomy_order ! i) (keywords_list ! n) \<longrightarrow>
      (\<forall>j<i. \<not> has_trigger (taxonomy_order ! j) (keywords_list ! n)) \<longrightarrow>
      identify_themes_manual keywords_list df ! n = taxonomy_order ! i) \<and>
   (\<forall>keywords_list (df :: dataframe) n.
      n < length keywords_list \<longrightarrow>
      has_trigger ''Account Access Issues'' (keywords_list ! n) \<longrightarrow>
      identify_themes_manual keywords_list df ! n = ''Account Access Issues'')"
proof (intro conjI allI impI)
  show "map fst theme_patterns = taxonomy_order"
    by (rule theme_patterns_names)
next
  fix keywords_list :: "string list" and df :: dataframe and n i
  assume n: "n < length keywords_list" and ne: "keywords_list ! n \<noteq> []"
    and i: "i < length taxonomy_order"
    and hit: "has_trigger (taxonomy_order ! i) (keywords_list ! n)"
    and first: "\<forall>j<i. \<not> has_trigger (taxonomy_order ! j) (keywords_list ! n)"
  have len: "length theme_patterns = length taxonomy_order"
    using theme_patterns_names by (metis length_map)
  have "assign_theme theme_patterns (keywords_list ! n) = fst (theme_patterns ! i)"
  proof (rule assign_theme_first)
    show "keywords_list ! n \<noteq> []" by (rule ne)
    show "i < length theme_patterns" using i len by simp
    show "\<exists>p \<in> set (snd (theme_patterns ! i)). occurs_in p (lower (keywords_list ! n))"
      using hit i by (simp add: has_trigger_def triggers_of_nth)
    show "\<forall>j<i. \<forall>p \<in> set (snd (theme_patterns ! j)). \<not> occurs_in p (lower (keywords_list ! n))"
    proof (intro allI impI)
      fix j assume "j < i"
      then have "j < length taxonomy_order" and "\<not> has_trigger (taxonomy_order ! j) (keywords_list ! n)"
        using i first by auto
      then show "\<forall>p \<in> set (snd (theme_patterns ! j)). \<not> occurs_in p (lower (keywords_list ! n))"
        by (simp add: has_trigger_def triggers_of_nth)
    qed
  qed
  moreover have "fst (theme_patterns ! i) = taxonomy_order ! i"
    using i len theme_patterns_names by (metis nth_map)
  ultimately show "identify_themes_manual keywords_list df ! n = taxonomy_order ! i"
    using n by (simp add: identify_themes_manual_eq)
next
  fix keywords_list :: "string list" and df :: dataframe and n
  assume n: "n < length keywords_list"
    and hit: "has_trigger ''Account Access Issues'' (keywords_list ! n)"
  have ne: "keywords_list ! n \<noteq> []"
  proof
    assume "keywords_list ! n = []"
    with hit show False
      by (auto simp: has_trigger_def triggers_of_def theme_patterns_def occurs_in_def lower_def)
  qed
  have "assign_theme theme_patterns (keywords_list ! n) = fst (theme_patterns ! 0)"
  proof (rule assign_theme_first)
    show "keywords_list ! n \<noteq> []" by (rule ne)
    show "0 < length theme_patterns" by (simp add: theme_patterns_def)
    show "\<exists>p \<in> set (snd (theme_patterns ! 0)). occurs_in p (lower (keywords_list ! n))"
      using hit triggers_of_nth [of 0]
      by (simp add: has_trigger_def taxonomy_order_def)
    show "\<forall>j<0. \<forall>p \<in> set (snd (theme_patterns ! j)). \<not> occurs_in p (lower (keywords_list ! n))"
      by simp
  qed
  then show "identify_themes_manual keywords_list df ! n = ''Account Access Issues''"
    using n by (simp add: identify_themes_manual_eq theme_patterns_def)
qed

theorem first_match_wins_witness:
  "has_trigger ''Account Access Issues'' ''login, customer support'' \<and>
   has_trigger ''Customer Support'' ''login, customer support'' \<and>
   identify_themes_manual [''login, customer support''] \<lparr>columns = [], rows = []\<rparr> ! 0
     = ''Account Access Issues'' \<and>
   \<not> has_trigger ''Account Access Issues'' ''support, slow'' \<and>
   has_trigger ''Transaction Performance'' ''support, slow'' \<and>
   has_trigger ''Customer Support'' ''support, slow'' \<and>
   identify_themes_manual [''support, slow''] \<lparr>columns = [], rows = []\<rparr> ! 0
     = ''Transaction Performance''"
proof -
  have a: "has_trigger ''Account Access Issues'' ''login, customer support''"
    and b: "has_trigger ''Customer Support'' ''login, customer support''"
    and c: "\<not> has_trigger ''Account Access Issues'' ''support, slow''"
    and d: "has_trigger ''Transaction Performance'' ''support, slow''"
    and e: "has_trigger ''Customer Support'' ''support, slow''"
    by (simp_all add: has_trigger_code triggers_of_def theme_patterns_def lower_def
          lower_char_def)
  have inst: "n < length keywords_list \<Longrightarrow>
      has_trigger ''Account Access Issues'' (keywords_list ! n) \<Longrightarrow>
      identify_themes_manual keywords_list df ! n = ''Account Access Issues''"
    for keywords_list n and df :: dataframe
    using first_match_wins by blast
  have general: "n < length keywords_list \<Longrightarrow> keywords_list ! n \<noteq> [] \<Longrightarrow>
      i < length taxonomy_order \<Longrightarrow>
      has_trigger (taxonomy_order ! i) (keywords_list ! n) \<Longrightarrow>
      (\<forall>j<i. \<not> has_trigger (taxonomy_order ! j) (keywords_list ! n)) \<Longrightarrow>
      identify_themes_manual keywords_list df ! n = taxonomy_order ! i"
    for keywords_list n i and df :: dataframe
    using first_match_wins by blast
  have 1: "identify_themes_manual [''login, customer support''] \<lparr>columns = [], rows = []\<rparr> ! 0
          = ''Account Access Issues''"
    by (rule inst) (simp_all add: a)
  have "identify_themes_manual [''support, slow''] \<lparr>columns = [], rows = []\<rparr> ! 0
          = taxonomy_order ! 1"
    by (rule general) (simp_all add: taxonomy_order_def c d)
  then have 2: "identify_themes_manual [''support, slow''] \<lparr>columns = [], rows = []\<rparr> ! 0
          = ''Transaction Performance''"
    by (simp add: taxonomy_order_def)
  from a b c d e 1 2 show ?thesis by blast
qed

text \<open>
  C6. A document whose keyword string is empty gets the theme "" whatever the taxonomy is
  (the taxonomy is not consulted); a document whose keyword string is not empty and
  contains no trigger substring of any theme gets the theme Other; "" and Other are
  different; and a document whose normalized text is empty gets the empty keyword string
  from the extractor, whatever the vectorizer and \<open>argsort\<close> return, and from it the
  theme "".
\<close>

theorem empty_and_other_themes:
  "(\<forall>taxonomy. assign_theme taxonomy [] = []) \<and>
   (\<forall>keywords_list (df :: dataframe) n.
      n < length keywords_list \<longrightarrow> keywords_list ! n = [] \<longrightarrow>
      identify_themes_manual keywords_list df ! n = []) \<and>
   (\<forall>keywords_list (df :: dataframe) n.
      n < length keywords_list \<longrightarrow> keywords_list ! n \<noteq> [] \<longrightarrow>
      (\<forall>name \<in> set taxonomy_order. \<not> has_trigger name (keywords_list ! n)) \<longrightarrow>
      identify_themes_manual keywords_list df ! n = ''Other'') \<and>
   [] \<noteq> ''Other'' \<and>
   (\<forall>fit_transform argsort (df :: dataframe) n.
      ''review'' \<in> set (columns df) \<longrightarrow> n < length (rows df) \<longrightarrow>
      preprocess_text (review (rows df ! n)) = [] \<longrightarrow>
      (\<exists>keywords_list feature_names.
         extract_keywords_tfidf fit_transform argsort df = Inr (keywords_list, feature_names) \<and>
         length keywords_list = length (rows df) \<and>
         keywords_list ! n = [] \<and>
         identify_themes_manual keywords_list df ! n = []))"
proof (intro conjI allI impI)
  fix taxonomy show "assign_theme taxonomy [] = []"
    by (simp add: assign_theme_def)
next
  fix keywords_list :: "string list" and df :: dataframe and n
  assume "n < length keywords_list" and "keywords_list ! n = []"
  then show "identify_themes_manual keywords_list df ! n = []"
    by (simp add: identify_themes_manual_eq assign_theme_def)
next
  fix keywords_list :: "string list" and df :: dataframe and n
  assume n: "n < length keywords_list" and ne: "keywords_list ! n \<noteq> []"
    and none: "\<forall>name \<in> set taxonomy_order. \<not> has_trigger name (keywords_list ! n)"
  have "\<forall>e \<in> set theme_patterns. \<forall>p \<in> set (snd e). \<not> occurs_in p (lower (keywords_list ! n))"
  proof
    fix e assume "e \<in> set theme_patterns"
    then obtain i where i: "i < length theme_patterns" and e: "e = theme_patterns ! i"
      by (auto simp: in_set_conv_nth)
    have len: "length theme_patterns = length taxonomy_order"
      using theme_patterns_names by (metis length_map)
    have "taxonomy_order ! i \<in> set taxonomy_order"
      using i len by simp
    with none have "\<not> has_trigger (taxonomy_order ! i) (keywords_list ! n)"
      by blast
    then show "\<forall>p \<in> set (snd e). \<not> occurs_in p (lower (keywords_list ! n))"
      using i len e by (simp add: has_trigger_def triggers_of_nth)
  qed
  with ne have "assign_theme theme_patterns (keywords_list ! n) = ''Other''"
    by (rule assign_theme_none)
  then show "identify_themes_manual keywords_list df ! n = ''Other''"
    using n by (simp add: identify_themes_manual_eq)
next
  show "[] \<noteq> ''Other''" by simp
next
  fix fit_transform argsort and df :: dataframe and n
  assume cols: "''review'' \<in> set (columns df)" and n: "n < length (rows df)"
    and blank: "preprocess_text (review (rows df ! n)) = []"
  from extract_keywords_tfidf_total [OF cols, of fit_transform argsort]
  obtain keywords_list feature_names where
    res: "extract_keywords_tfidf fit_transform argsort df = Inr (keywords_list, feature_names)"
    and len: "length keywords_list = length (rows df)"
    and emp: "\<forall>n<length (rows df).
                strip (preprocess_text (review (rows df ! n))) = [] \<longrightarrow> keywords_list ! n = []"
    by blast
  have k: "keywords_list ! n = []"
    using emp n blank by (simp add: strip_Nil)
  then have "identify_themes_manual keywords_list df ! n = []"
    using n len by (simp add: identify_themes_manual_eq assign_theme_def)
  with res len k
  show "\<exists>keywords_list feature_names.
         extract_keywords_tfidf fit_transform argsort df = Inr (keywords_list, feature_names) \<and>
         length keywords_list = length (rows df) \<and>
         keywords_list ! n = [] \<and>
         identify_themes_manual keywords_list df ! n = []"
    by blast
qed

theorem empty_and_other_themes_witness:
  "identify_themes_manual ['''', ''Great, App''] \<lparr>columns = [], rows = []\<rparr> ! 0 = [] \<and>
   identify_themes_manual ['''', ''Great, App''] \<lparr>columns = [], rows = []\<rparr> ! 1 = ''Other'' \<and>
   (\<exists>keywords_list feature_names.
      extract_keywords_tfidf (\<lambda>texts. Inr ([''app'', ''great''], [[0, 0], [1/2, 1/2]]))
        stable_argsort
        \<lparr>columns = [''review''],
         rows = [\<lparr>review = Some ''!!! 123'', rating = 1, bank = ''CBE'',
                  sentiment_label = None, theme = None\<rparr>,
                 \<lparr>review = Some ''Great app'', rating = 5, bank = ''CBE'',
                  sentiment_label = None, theme = None\<rparr>]\<rparr>
        = Inr (keywords_list, feature_names) \<and>
      keywords_list ! 0 = [] \<and>
      identify_themes_manual keywords_list
        \<lparr>columns = [''review''],
         rows = [\<lparr>review = Some ''!!! 123'', rating = 1, bank = ''CBE'',
                  sentiment_label = None, theme = None\<rparr>,
                 \<lparr>review = Some ''Great app'', rating = 5, bank = ''CBE'',
                  sentiment_label = None, theme = None\<rparr>]\<rparr> ! 0 = [])"
proof -
  let ?df = "\<lparr>columns = [''review''],
         rows = [\<lparr>review = Some ''!!! 123'', rating = 1, bank = ''CBE'',
                  sentiment_label = None, theme = None\<rparr>,
                 \<lparr>review = Some ''Great app'', rating = 5, bank = ''CBE'',
                  sentiment_label = None, theme = None\<rparr>]\<rparr>"
  have none: "\<forall>name \<in> set taxonomy_order. \<not> has_trigger name ''Great, App''"
    by (simp add: has_trigger_code taxonomy_order_def triggers_of_def theme_patterns_def
          lower_def lower_char_def)
  have blank: "preprocess_text (Some ''!!! 123'') = []"
    by (simp add: preprocess_text_def lower_def lower_char_def is_alpha_def is_space_def
          strip_def)
  have a: "n < length keywords_list \<Longrightarrow> keywords_list ! n = [] \<Longrightarrow>
      identify_themes_manual keywords_list df ! n = []"
    for keywords_list n and df :: dataframe
    using empty_and_other_themes by blast
  have b: "n < length keywords_list \<Longrightarrow> keywords_list ! n \<noteq> [] \<Longrightarrow>
      (\<forall>name \<in> set taxonomy_order. \<not> has_trigger name (keywords_list ! n)) \<Longrightarrow>
      identify_themes_manual keywords_list df ! n = ''Other''"
    for keywords_list n and df :: dataframe
    using empty_and_other_themes by blast
  have c: "''review'' \<in> set (columns df) \<Longrightarrow> n < length (rows df) \<Longrightarrow>
      preprocess_text (review (rows df ! n)) = [] \<Longrightarrow>
      (\<exists>keywords_list feature_names.
         extract_keywords_tfidf fit_transform argsort df = Inr (keywords_list, feature_names) \<and>
         length keywords_list = length (rows df) \<and>
         keywords_list ! n = [] \<and>
         identify_themes_manual keywords_list df ! n = [])"
    for fit_transform argsort n and df :: dataframe
    using empty_and_other_themes by blast
  have 1: "identify_themes_manual ['''', ''Great, App''] \<lparr>columns = [], rows = []\<rparr> ! 0 = []"
    by (rule a) simp_all
  have 2: "identify_themes_manual ['''', ''Great, App''] \<lparr>columns = [], rows = []\<rparr> ! 1 = ''Other''"
    by (rule b) (simp_all add: none)
  have 3: "\<exists>keywords_list feature_names.
      extract_keywords_tfidf (\<lambda>texts. Inr ([''app'', ''great''], [[0, 0], [1/2, 1/2]]))
        stable_argsort ?df
        = Inr (keywords_list, feature_names) \<and>
      length keywords_list = length (rows ?df) \<and>
      keywords_list ! 0 = [] \<and>
      identify_themes_manual keywords_list ?df ! 0 = []"
    by (rule c) (simp_all add: blank)
  from 1 2 3 show ?thesis by blast
qed

section \<open>Claims about the per-bank classification\<close>

text \<open>
  C9. For a frame with the columns \<open>bank\<close> and \<open>review\<close> and a keyword list with one entry
  per row, \<open>identify_themes_by_bank\<close> returns, for every bank of the frame (in order of
  first appearance), exactly the themes that the classification of the whole corpus
  assigns to the rows of that bank; and every theme of the whole-corpus classification is
  a function of the fixed taxonomy and of the row's own keyword string only. Both
  functions are pure in the model, as in the source, where the per-bank call works on
  copies and on fresh lists.
\<close>

theorem per_bank_agrees_with_global:
  assumes "''bank'' \<in> set (columns df)" and "''review'' \<in> set (columns df)"
    and "length keywords_list = length (rows df)"
  shows "\<exists>bank_themes.
           identify_themes_by_bank df keywords_list = Inr bank_themes \<and>
           map fst bank_themes = unique (map bank (rows df)) \<and>
           (\<forall>r \<in> set (rows df).
              map_of bank_themes (bank r) =
                Some (map (\<lambda>i. identify_themes_manual keywords_list df ! i)
                        (bank_index df (bank r)))) \<and>
           identify_themes_manual keywords_list df =
             map (assign_theme theme_patterns) keywords_list"
proof -
  let ?banks = "unique (map bank (rows df))"
  let ?f = "\<lambda>b. (b, map (\<lambda>i. assign_theme theme_patterns (keywords_list ! i)) (bank_index df b))"
  let ?bt = "map ?f ?banks"
  have run: "identify_themes_by_bank df keywords_list = Inr ?bt"
    using assms bank_loop_eq [of df keywords_list ?banks "[]"]
    by (simp add: identify_themes_by_bank_def distinct_unique)
  have keys: "map fst ?bt = ?banks"
    by (simp add: comp_def)
  have look: "map_of ?bt (bank r) =
                Some (map (\<lambda>i. identify_themes_manual keywords_list df ! i)
                        (bank_index df (bank r)))"
    if "r \<in> set (rows df)" for r
  proof -
    have "bank r \<in> set ?banks"
      using that by (simp add: set_unique)
    then have "map_of ?bt (bank r) = Some (snd (?f (bank r)))"
      by (simp add: map_of_graph)
    moreover have "map (\<lambda>i. assign_theme theme_patterns (keywords_list ! i)) (bank_index df (bank r))
        = map (\<lambda>i. identify_themes_manual keywords_list df ! i) (bank_index df (bank r))"
      using assms(3) by (auto simp: identify_themes_manual_eq dest: bank_index_bound)
    ultimately show ?thesis by simp
  qed
  show ?thesis
    apply (rule exI [of _ ?bt])
    apply (intro conjI ballI)
    apply (rule run)
    apply (rule keys)
    apply (erule look)
    apply (rule identify_themes_manual_eq)
    done
qed

theorem per_bank_agrees_with_global_witness:
  "identify_themes_by_bank
     \<lparr>columns = [''review'', ''bank''],
      rows = [\<lparr>review = Some ''login failed'', rating = 1, bank = ''CBE'',
               sentiment_label = None, theme = None\<rparr>,
              \<lparr>review = Some ''good support'', rating = 5, bank = ''BOA'',
               sentiment_label = None, theme = None\<rparr>,
              \<lparr>review = Some ''fast transfer'', rating = 5, bank = ''CBE'',
               sentiment_label = None, theme = None\<rparr>]\<rparr>
     [''login, failed'', ''support, good'', ''transfer, fast'']
   = Inr [(''CBE'', [''Account Access Issues'', ''Transaction Performance'']),
          (''BOA'', [''Customer Support''])]"
proof -
  let ?df = "\<lparr>columns = [''review'', ''bank''],
      rows = [\<lparr>review = Some ''login failed'', rating = 1, bank = ''CBE'',
               sentiment_label = None, theme = None\<rparr>,
              \<lparr>review = Some ''good support'', rating = 5, bank = ''BOA'',
               sentiment_label = None, theme = None\<rparr>,
              \<lparr>review = Some ''fast transfer'', rating = 5, bank = ''CBE'',
               sentiment_label = None, theme = None\<rparr>]\<rparr>"
  let ?kl = "[''login, failed'', ''support, good'', ''transfer, fast'']"
  have global: "identify_themes_manual ?kl ?df =
      [''Account Access Issues'', ''Customer Support'', ''Transaction Performance'']"
    by (simp add: identify_themes_manual_def assign_theme_def theme_patterns_def lower_def
          lower_char_def)
  have idx: "bank_index ?df ''CBE'' = [0, 2]" "bank_index ?df ''BOA'' = [1]"
    by (simp_all add: bank_index_def upt_rec)
  have uniq: "unique (map bank (rows ?df)) = [''CBE'', ''BOA'']"
    by (simp add: unique_def)
  from per_bank_agrees_with_global [of ?df ?kl]
  obtain bank_themes where
    run: "identify_themes_by_bank ?df ?kl = Inr bank_themes"
    and keys: "map fst bank_themes = unique (map bank (rows ?df))"
    and look: "\<forall>r \<in> set (rows ?df).
              map_of bank_themes (bank r) =
                Some (map (\<lambda>i. identify_themes_manual ?kl ?df ! i) (bank_index ?df (bank r)))"
    by auto
  from look have cbe: "map_of bank_themes ''CBE'' = Some [''Account Access Issues'', ''Transaction Performance'']"
    and boa: "map_of bank_themes ''BOA'' = Some [''Customer Support'']"
    by (simp_all add: idx global)
  from keys uniq obtain v1 v2 where bt: "bank_themes = [(''CBE'', v1), (''BOA'', v2)]"
    by (auto simp: map_eq_Cons_conv)
  with cbe boa have "v1 = [''Account Access Issues'', ''Transaction Performance'']"
    and "v2 = [''Customer Support'']"
    by simp_all
  with run bt show ?thesis by simp
qed

section \<open>Claims about the keyword extractor\<close>

text \<open>
  C7. When vectorization fails for the corpus, that is when \<open>fit_transform\<close> raises (as
  scikit-learn does when no term is left after the document-frequency floor) or anything
  else raises inside the \<open>try\<close> block, \<open>extract_keywords_tfidf\<close> does not raise: it
  returns the empty keyword string for every document, and the empty vocabulary.
\<close>

theorem vectorizer_failure_recovered:
  assumes "''review'' \<in> set (columns df)"
    and "fit_transform (map (\<lambda>r. preprocess_text (review r)) (rows df)) = Inl e \<or>
         try_block fit_transform argsort (map (\<lambda>r. preprocess_text (review r)) (rows df)) = Inl e"
  shows "extract_keywords_tfidf fit_transform argsort df = Inr (replicate (length (rows df)) [], [])"
proof -
  let ?texts = "map (\<lambda>r. preprocess_text (review r)) (rows df)"
  from assms(2) have "try_block fit_transform argsort ?texts = Inl e"
    by (auto simp: try_block_def)
  with assms(1) show ?thesis
    by (simp add: extract_keywords_tfidf_def map_replicate_const)
qed

theorem vectorizer_failure_recovered_witness:
  "extract_keywords_tfidf (\<lambda>texts. Inl ValueError) stable_argsort
     \<lparr>columns = [''review'', ''bank''],
      rows = [\<lparr>review = Some ''login failed'', rating = 1, bank = ''CBE'',
               sentiment_label = None, theme = None\<rparr>,
              \<lparr>review = Some ''good support'', rating = 5, bank = ''BOA'',
               sentiment_label = None, theme = None\<rparr>]\<rparr>
   = Inr ([[], []], [])"
  using vectorizer_failure_recovered
    [where df = "\<lparr>columns = [''review'', ''bank''],
      rows = [\<lparr>review = Some ''login failed'', rating = 1, bank = ''CBE'',
               sentiment_label = None, theme = None\<rparr>,
              \<lparr>review = Some ''good support'', rating = 5, bank = ''BOA'',
               sentiment_label = None, theme = None\<rparr>]\<rparr>"
       and fit_transform = "\<lambda>texts. Inl ValueError" and e = ValueError
       and argsort = stable_argsort]
  by (simp add: numeral_2_eq_2)

text \<open>
  C5, as the code has it. When the vectorizer returns one row of weights per document,
  each as long as the vocabulary, and \<open>argsort\<close> returns for every row one of the orders
  that numpy may return, the keyword string of a document with non-empty normalized text
  is made of the terms at the last (at most ten) positions of that order, taken backwards:
  these are positions of highest weight, in descending order of weight; the terms with a
  weight above zero among them are kept, and the first five joined. Which of several
  positions of equal weight comes first, and which of them are among the ten, is left to
  numpy's \<open>argsort\<close>: no order among equal weights is fixed by the code.
\<close>

theorem top_keywords_of_document:
  assumes "''review'' \<in> set (columns df)"
    and "fit_transform (map (\<lambda>r. preprocess_text (review r)) (rows df)) = Inr (feature_names, m)"
    and "length m = length (rows df)"
    and "\<forall>scores \<in> set m. length scores = length feature_names \<and>
                           is_argsort scores (argsort scores)"
    and "n < length (rows df)"
    and "preprocess_text (review (rows df ! n)) \<noteq> []"
  shows "\<exists>keywords_list.
           extract_keywords_tfidf fit_transform argsort df = Inr (keywords_list, feature_names) \<and>
           keywords_list ! n =
             join '', '' (take 5 (map ((!) feature_names)
               (filter (\<lambda>j. 0 < m ! n ! j) (top_indices (argsort (m ! n)))))) \<and>
           length (top_indices (argsort (m ! n))) = min 10 (length feature_names) \<and>
           distinct (top_indices (argsort (m ! n))) \<and>
           set (top_indices (argsort (m ! n))) \<subseteq> {..<length feature_names} \<and>
           sorted_wrt (\<lambda>a b. m ! n ! b \<le> m ! n ! a) (top_indices (argsort (m ! n))) \<and>
           (\<forall>j<length feature_names. j \<notin> set (top_indices (argsort (m ! n))) \<longrightarrow>
              (\<forall>t \<in> set (top_indices (argsort (m ! n))). m ! n ! j \<le> m ! n ! t))"
proof -
  let ?texts = "map (\<lambda>r. preprocess_text (review r)) (rows df)"
  let ?tops = "top_indices (argsort (m ! n))"
  have mem: "m ! n \<in> set m"
    using assms(3,5) by simp
  have row: "length (m ! n) = length feature_names"
    and ord: "is_argsort (m ! n) (argsort (m ! n))"
    using assms(4) mem by blast+
  have wf: "\<forall>scores \<in> set m. is_argsort scores (argsort scores) \<and>
                               length scores \<le> length feature_names"
    using assms(4) by simp
  have "0 + length ?texts \<le> length m"
    using assms(3) by simp
  from keywords_loop_total [OF this wf, of "[]"] obtain res where
    loop: "keywords_loop argsort feature_names m 0 ?texts [] = Inr res"
    by blast
  have run: "extract_keywords_tfidf fit_transform argsort df = Inr (res, feature_names)"
    using assms(1,2) loop by (simp add: extract_keywords_tfidf_def try_block_def)
  have "strip (?texts ! n) \<noteq> []"
    using assms(5,6) by (simp add: strip_preprocess_text)
  with keywords_loop_Inr [OF loop] assms(5)
  have "document_keywords argsort feature_names (m ! n) = Inr (res ! n)"
    by auto
  then have kw: "res ! n =
             join '', '' (take 5 (map ((!) feature_names)
               (filter (\<lambda>j. 0 < m ! n ! j) ?tops)))"
    using document_keywords_Inr [where scores = "m ! n" and argsort = argsort
            and feature_names = feature_names, OF ord] row
    by simp
  have len: "length ?tops = min 10 (length feature_names)"
    using top_indices_length [OF ord] row by simp
  have sub: "set ?tops \<subseteq> {..<length feature_names}"
    using top_indices_subset [OF ord] row by simp
  have out: "\<forall>j<length feature_names. j \<notin> set ?tops \<longrightarrow>
               (\<forall>t \<in> set ?tops. m ! n ! j \<le> m ! n ! t)"
    using top_indices_outside [OF ord] row by simp
  show ?thesis
    apply (rule exI [of _ res])
    apply (intro conjI)
          apply (rule run)
         apply (rule kw)
        apply (rule len)
       apply (rule top_indices_distinct [OF ord])
      apply (rule sub)
     apply (rule top_indices_descending [OF ord])
    apply (rule out)
    done
qed

theorem top_keywords_of_document_witness:
  "''review'' \<in> set (columns tie_frame) \<and>
   tie_vectorizer (map (\<lambda>r. preprocess_text (review r)) (rows tie_frame)) =
     Inr ([''failed'', ''login''], [[1/2, 1/2], [1/2, 1/2]]) \<and>
   is_argsort [1/2, 1/2] (stable_argsort [1/2, 1/2]) \<and>
   preprocess_text (review (rows tie_frame ! 0)) = ''login failed'' \<and>
   (\<exists>keywords_list.
      extract_keywords_tfidf tie_vectorizer stable_argsort tie_frame =
        Inr (keywords_list, [''failed'', ''login'']) \<and>
      keywords_list ! 0 = ''login, failed'' \<and>
      length (top_indices (stable_argsort [1/2, 1/2])) = 2)"
proof -
  let ?m = "[[1/2, 1/2], [1/2, 1/2]] :: rat list list"
  have cols: "''review'' \<in> set (columns tie_frame)"
    by (simp add: tie_frame_def)
  have vec: "tie_vectorizer (map (\<lambda>r. preprocess_text (review r)) (rows tie_frame)) =
               Inr ([''failed'', ''login''], ?m)"
    by (simp add: tie_vectorizer_def)
  have len: "length ?m = length (rows tie_frame)"
    by (simp add: tie_frame_def)
  have wf: "\<forall>scores \<in> set ?m. length scores = length [''failed'', ''login''] \<and>
                                is_argsort scores (stable_argsort scores)"
    by (simp add: tie_is_argsort)
  have n: "0 < length (rows tie_frame)"
    by (simp add: tie_frame_def)
  have txt0: "preprocess_text (review (rows tie_frame ! 0)) = ''login failed''"
    using tie_frame_texts n by (metis (no_types, lifting) nth_map nth_Cons_0)
  then have ne: "preprocess_text (review (rows tie_frame ! 0)) \<noteq> []"
    by simp
  from top_keywords_of_document
         [where df = tie_frame and fit_transform = tie_vectorizer
            and argsort = stable_argsort
            and feature_names = "[''failed'', ''login'']" and m = ?m and n = 0,
          OF cols vec len wf n ne]
  obtain keywords_list where
    run: "extract_keywords_tfidf tie_vectorizer stable_argsort tie_frame =
            Inr (keywords_list, [''failed'', ''login''])"
    and kw: "keywords_list ! 0 =
             join '', '' (take 5 (map ((!) [''failed'', ''login''])
               (filter (\<lambda>j. 0 < ?m ! 0 ! j) (top_indices (stable_argsort (?m ! 0))))))"
    and l: "length (top_indices (stable_argsort (?m ! 0))) =
              min 10 (length [''failed'', ''login''])"
    by blast
  from kw have kw': "keywords_list ! 0 = ''login, failed''"
    by (simp add: tie_top_indices)
  from l have l': "length (top_indices (stable_argsort [1/2, 1/2])) = 2"
    by simp
  from cols vec tie_is_argsort txt0 run kw' l' show ?thesis
    by blast
qed

text \<open>
  C5 as the specification states it fails on ties: with the vocabulary failed, login and
  the same weight for both terms, the order 0, 1 is one that \<open>argsort\<close> may return (it is
  the one a stable sort returns), and with it the keyword string of a document is
  "login, failed", the later term of the vocabulary first, where vocabulary order would
  give "failed, login".
\<close>

theorem tie_order_counterexample:
  "stable_argsort [1/2, 1/2] = [0, 1] \<and>
   is_argsort [1/2, 1/2] [0, 1] \<and>
   extract_keywords_tfidf tie_vectorizer stable_argsort tie_frame =
     Inr ([''login, failed'', ''login, failed''], [''failed'', ''login'']) \<and>
   document_keywords stable_argsort [''failed'', ''login''] [1/2, 1/2] = Inr ''login, failed'' \<and>
   claimed_keywords [''failed'', ''login''] [1/2, 1/2] = ''failed, login'' \<and>
   document_keywords stable_argsort [''failed'', ''login''] [1/2, 1/2] \<noteq>
     Inr (claimed_keywords [''failed'', ''login''] [1/2, 1/2])"
  using tie_is_argsort
  by (simp add: tie_argsort tie_frame_keywords tie_document_keywords tie_claimed_keywords)

section \<open>Claims about the recommendation mapper\<close>

text \<open>
  C8. The recommendations of an insight set are the recommendations of its pain points, in
  the order of \<open>pain_points\<close>, followed by those of its drivers, in the order of \<open>drivers\<close>;
  every pain point contributes its one recommendation or nothing (nothing exactly when its
  theme contains none of the trigger substrings), a driver contributes a recommendation
  exactly when its theme contains "Transaction Performance", and that recommendation has
  priority Low; nothing is removed from the sequence afterwards, so equal recommendations
  stay. \<open>generate_recommendations\<close> returns this sequence for the insight set of the bank.
\<close>

theorem recommendation_sequence:
  "(\<forall>ins. recommendations_of ins =
            List.map_filter (\<lambda>p. pain_point_rule (ins_theme p)) (pain_points ins) @
            List.map_filter (\<lambda>d. driver_rule (ins_theme d)) (drivers ins)) \<and>
   (\<forall>df bank_name ins.
      identify_drivers_and_pain_points df bank_name = Inr ins \<longrightarrow>
      generate_recommendations df bank_name = Inr (recommendations_of ins)) \<and>
   (\<forall>name. (pain_point_rule name = None) =
             (\<not> occurs_in ''Account Access'' name \<and> \<not> occurs_in ''Transaction Performance'' name \<and>
              \<not> occurs_in ''User Interface'' name \<and> \<not> occurs_in ''Experience'' name \<and>
              \<not> occurs_in ''Customer Support'' name \<and> \<not> occurs_in ''Reliability'' name)) \<and>
   (\<forall>name. (driver_rule name \<noteq> None) = occurs_in ''Transaction Performance'' name) \<and>
   (\<forall>name r. driver_rule name = Some r \<longrightarrow> priority r = ''Low'')"
proof (intro conjI allI impI)
  fix ins
  show "recommendations_of ins =
            List.map_filter (\<lambda>p. pain_point_rule (ins_theme p)) (pain_points ins) @
            List.map_filter (\<lambda>d. driver_rule (ins_theme d)) (drivers ins)"
    by (simp add: recommendations_of_def driver_loop_eq pain_point_loop_eq)
next
  fix df bank_name ins
  assume "identify_drivers_and_pain_points df bank_name = Inr ins"
  then show "generate_recommendations df bank_name = Inr (recommendations_of ins)"
    by (simp add: generate_recommendations_def)
next
  fix name
  show "(pain_point_rule name = None) =
             (\<not> occurs_in ''Account Access'' name \<and> \<not> occurs_in ''Transaction Performance'' name \<and>
              \<not> occurs_in ''User Interface'' name \<and> \<not> occurs_in ''Experience'' name \<and>
              \<not> occurs_in ''Customer Support'' name \<and> \<not> occurs_in ''Reliability'' name)"
    unfolding pain_point_rule_def str_in_iff by simp
next
  fix name
  show "(driver_rule name \<noteq> None) = occurs_in ''Transaction Performance'' name"
    unfolding driver_rule_def str_in_iff by simp
next
  fix name r
  assume "driver_rule name = Some r"
  then show "priority r = ''Low''"
    unfolding driver_rule_def by (auto split: if_splits)
qed

theorem recommendation_sequence_witness:
  "generate_recommendations example_frame (Some ''CBE'') =
     Inr [\<lparr>category = ''Account Access'',
           recommendation_text = ''Improve login process and authentication mechanisms. Consider implementing biometric authentication and password recovery options.'',
           priority = ''High''\<rparr>,
          \<lparr>category = ''Enhancement'',
           recommendation_text = ''Leverage fast transaction processing as a competitive advantage. Market this feature prominently.'',
           priority = ''Low''\<rparr>]"
proof -
  let ?ins = "\<lparr>drivers = [\<lparr>ins_theme = ''Transaction Performance'', ins_count = 1,
                       ins_percentage = 100\<rparr>],
          pain_points = [\<lparr>ins_theme = ''Account Access Issues'', ins_count = 2,
                           ins_percentage = 100\<rparr>]\<rparr>"
  have gen: "generate_recommendations example_frame (Some ''CBE'') = Inr (recommendations_of ?ins)"
    using recommendation_sequence example_frame_insights by blast
  have seq: "recommendations_of ?ins =
            List.map_filter (\<lambda>p. pain_point_rule (ins_theme p)) (pain_points ?ins) @
            List.map_filter (\<lambda>d. driver_rule (ins_theme d)) (drivers ?ins)"
    using recommendation_sequence by blast
  show ?thesis
    unfolding gen seq by (simp add: pain_point_rule_def driver_rule_def)
qed

section \<open>Claims about the insight ranker\<close>

text \<open>
  C4. Whenever \<open>identify_drivers_and_pain_points\<close> selects the rows of a bank (or the whole
  frame), it returns an insight set in which no theme occurs twice within \<open>drivers\<close> and no
  theme occurs twice within \<open>pain_points\<close>. Each list starts with the list as the sentiment
  blocks left it, unchanged; what the rating blocks add comes after it, so an entry of the
  returned list that has the theme of a sentiment-derived entry is that entry, with its
  count and percentage. (A theme can be in both lists, as in the example below.)
\<close>

theorem insight_lists_deduplicated:
  assumes "select_bank df bank_name = Inr bank_df"
  shows "\<exists>ins rd rp.
           identify_drivers_and_pain_points df bank_name = Inr ins \<and>
           distinct (map ins_theme (drivers ins)) \<and>
           distinct (map ins_theme (pain_points ins)) \<and>
           drivers ins = drivers (seeded df bank_df) @ rd \<and>
           pain_points ins = pain_points (seeded df bank_df) @ rp \<and>
           (\<forall>s \<in> set (drivers (seeded df bank_df)). \<forall>i \<in> set (drivers ins).
              ins_theme i = ins_theme s \<longrightarrow> i = s) \<and>
           (\<forall>s \<in> set (pain_points (seeded df bank_df)). \<forall>i \<in> set (pain_points ins).
              ins_theme i = ins_theme s \<longrightarrow> i = s)"
proof -
  let ?sd = "drivers (seeded df bank_df)" and ?sp = "pain_points (seeded df bank_df)"
  let ?c = "''rating'' \<in> set (columns df) \<and> ''theme'' \<in> set (columns df)"
  let ?rd = "if ?c then rating_extras (high_ratings bank_df) ?sd else []"
  let ?rp = "if ?c then rating_extras (low_ratings bank_df) ?sp else []"
  let ?ins = "\<lparr>drivers = ?sd @ ?rd, pain_points = ?sp @ ?rp\<rparr>"
  have run: "identify_drivers_and_pain_points df bank_name = Inr ?ins"
    by (rule identify_closed_form [OF assms])
  have dd: "distinct (map ins_theme (?sd @ ?rd))"
    by (rule guarded_extras_distinct) (rule seeded_distinct)
  have dp: "distinct (map ins_theme (?sp @ ?rp))"
    by (rule guarded_extras_distinct) (rule seeded_distinct)
  have kd: "\<forall>s \<in> set ?sd. \<forall>i \<in> set (?sd @ ?rd). ins_theme i = ins_theme s \<longrightarrow> i = s"
    using dd by (intro ballI impI same_theme_same_entry [of "?sd @ ?rd"]) simp_all
  have kp: "\<forall>s \<in> set ?sp. \<forall>i \<in> set (?sp @ ?rp). ins_theme i = ins_theme s \<longrightarrow> i = s"
    using dp by (intro ballI impI same_theme_same_entry [of "?sp @ ?rp"]) simp_all
  show ?thesis
    apply (rule exI [of _ ?ins])
    apply (rule exI [of _ ?rd])
    apply (rule exI [of _ ?rp])
    apply (simp only: insights.simps)
    apply (intro conjI)
          apply (rule run)
         apply (rule dd)
        apply (rule dp)
       apply (rule refl)
      apply (rule refl)
     apply (rule kd)
    apply (rule kp)
    done
qed

theorem insight_lists_deduplicated_witness:
  "select_bank mixed_frame (Some ''CBE'') = Inr (rows mixed_frame) \<and>
   identify_drivers_and_pain_points mixed_frame (Some ''CBE'') =
     Inr \<lparr>drivers = [\<lparr>ins_theme = ''Transaction Performance'', ins_count = 2,
                       ins_percentage = 2345624805922133 / 35184372088832\<rparr>,
                     \<lparr>ins_theme = ''Customer Support'', ins_count = 1,
                       ins_percentage = 2345624805922133 / 70368744177664\<rparr>],
          pain_points = [\<lparr>ins_theme = ''Account Access Issues'', ins_count = 2,
                           ins_percentage = 100\<rparr>,
                         \<lparr>ins_theme = ''Customer Support'', ins_count = 1,
                           ins_percentage = 2345624805922133 / 70368744177664\<rparr>]\<rparr> \<and>
   pain_points (seeded mixed_frame (rows mixed_frame)) =
     [\<lparr>ins_theme = ''Account Access Issues'', ins_count = 2, ins_percentage = 100\<rparr>] \<and>
   distinct [''Transaction Performance'', ''Customer Support''] \<and>
   distinct [''Account Access Issues'', ''Customer Support'']"
proof -
  from insight_lists_deduplicated [OF mixed_frame_select]
  obtain ins rd rp where
    run: "identify_drivers_and_pain_points mixed_frame (Some ''CBE'') = Inr ins"
    and dd: "distinct (map ins_theme (drivers ins))"
    and dp: "distinct (map ins_theme (pain_points ins))"
    by blast
  from run have ins: "ins =
     \<lparr>drivers = [\<lparr>ins_theme = ''Transaction Performance'', ins_count = 2,
                   ins_percentage = 2345624805922133 / 35184372088832\<rparr>,
                 \<lparr>ins_theme = ''Customer Support'', ins_count = 1,
                   ins_percentage = 2345624805922133 / 70368744177664\<rparr>],
      pain_points = [\<lparr>ins_theme = ''Account Access Issues'', ins_count = 2,
                       ins_percentage = 100\<rparr>,
                     \<lparr>ins_theme = ''Customer Support'', ins_count = 1,
                       ins_percentage = 2345624805922133 / 70368744177664\<rparr>]\<rparr>"
    by (simp add: mixed_frame_insights)
  from dd have d1: "distinct [''Transaction Performance'', ''Customer Support'']"
    unfolding ins by simp
  from dp have d2: "distinct [''Account Access Issues'', ''Customer Support'']"
    unfolding ins by simp
  from d1 d2 show ?thesis
    by (simp only: mixed_frame_select mixed_frame_insights mixed_frame_seeded insights.simps
          simp_thms)
qed

text \<open>
  C10. The returned lists have at most five entries each: at most three from the sentiment
  blocks and at most two more from the rating blocks. Every insight in them has a count
  of at least 1 and a percentage greater than 0.
\<close>

theorem insight_lists_bounded:
  assumes "select_bank df bank_name = Inr bank_df"
  shows "\<exists>ins.
           identify_drivers_and_pain_points df bank_name = Inr ins \<and>
           length (drivers (seeded df bank_df)) \<le> 3 \<and>
           length (pain_points (seeded df bank_df)) \<le> 3 \<and>
           length (drivers ins) \<le> length (drivers (seeded df bank_df)) + 2 \<and>
           length (pain_points ins) \<le> length (pain_points (seeded df bank_df)) + 2 \<and>
           length (drivers ins) \<le> 5 \<and>
           length (pain_points ins) \<le> 5 \<and>
           (\<forall>i \<in> set (drivers ins) \<union> set (pain_points ins).
              1 \<le> ins_count i \<and> 0 < ins_percentage i)"
proof -
  let ?sd = "drivers (seeded df bank_df)" and ?sp = "pain_points (seeded df bank_df)"
  let ?c = "''rating'' \<in> set (columns df) \<and> ''theme'' \<in> set (columns df)"
  let ?rd = "if ?c then rating_extras (high_ratings bank_df) ?sd else []"
  let ?rp = "if ?c then rating_extras (low_ratings bank_df) ?sp else []"
  let ?ins = "\<lparr>drivers = ?sd @ ?rd, pain_points = ?sp @ ?rp\<rparr>"
  have run: "identify_drivers_and_pain_points df bank_name = Inr ?ins"
    by (rule identify_closed_form [OF assms])
  have sd3: "length ?sd \<le> 3" and sp3: "length ?sp \<le> 3"
    by (rule seeded_length)+
  have rd2: "length ?rd \<le> 2" and rp2: "length ?rp \<le> 2"
    by (rule guarded_extras_length)+
  have ld: "length (?sd @ ?rd) \<le> length ?sd + 2" and lp: "length (?sp @ ?rp) \<le> length ?sp + 2"
    using rd2 rp2 by simp_all
  have ld5: "length (?sd @ ?rd) \<le> 5" and lp5: "length (?sp @ ?rp) \<le> 5"
    using sd3 sp3 rd2 rp2 by simp_all
  have seed_ok: "1 \<le> ins_count i \<and> 0 < ins_percentage i"
    if "i \<in> set ?sd \<union> set ?sp" for i
    using that seed_list_entry [of i "positive_reviews bank_df"]
      seed_list_entry [of i "negative_reviews bank_df"]
    by (auto simp: seeded_eq split: if_splits)
  have extra_ok: "1 \<le> ins_count i \<and> 0 < ins_percentage i"
    if "i \<in> set ?rd \<union> set ?rp" for i
    using that guarded_extras_entry [of i ?c "high_ratings bank_df" ?sd]
      guarded_extras_entry [of i ?c "low_ratings bank_df" ?sp]
    by blast
  have ok: "\<forall>i \<in> set (?sd @ ?rd) \<union> set (?sp @ ?rp). 1 \<le> ins_count i \<and> 0 < ins_percentage i"
  proof
    fix i assume "i \<in> set (?sd @ ?rd) \<union> set (?sp @ ?rp)"
    then have "i \<in> set ?sd \<union> set ?sp \<or> i \<in> set ?rd \<union> set ?rp"
      by (simp only: set_append Un_iff) blast
    then show "1 \<le> ins_count i \<and> 0 < ins_percentage i"
      using seed_ok extra_ok by blast
  qed
  show ?thesis
    apply (rule exI [of _ ?ins])
    apply (simp only: insights.simps)
    apply (intro conjI)
           apply (rule run)
          apply (rule sd3)
         apply (rule sp3)
        apply (rule ld)
       apply (rule lp)
      apply (rule ld5)
     apply (rule lp5)
    apply (rule ok)
    done
qed

theorem insight_lists_bounded_witness:
  "select_bank mixed_frame (Some ''CBE'') = Inr (rows mixed_frame) \<and>
   identify_drivers_and_pain_points mixed_frame (Some ''CBE'') =
     Inr \<lparr>drivers = [\<lparr>ins_theme = ''Transaction Performance'', ins_count = 2,
                       ins_percentage = 2345624805922133 / 35184372088832\<rparr>,
                     \<lparr>ins_theme = ''Customer Support'', ins_count = 1,
                       ins_percentage = 2345624805922133 / 70368744177664\<rparr>],
          pain_points = [\<lparr>ins_theme = ''Account Access Issues'', ins_count = 2,
                           ins_percentage = 100\<rparr>,
                         \<lparr>ins_theme = ''Customer Support'', ins_count = 1,
                           ins_percentage = 2345624805922133 / 70368744177664\<rparr>]\<rparr> \<and>
   length [\<lparr>ins_theme = ''Account Access Issues'', ins_count = 2, ins_percentage = 100\<rparr>,
           \<lparr>ins_theme = ''Customer Support'', ins_count = 1, ins_percentage = 2345624805922133 / 70368744177664\<rparr>]
     \<le> 5 \<and>
   1 \<le> ins_count
          \<lparr>ins_theme = ''Customer Support'', ins_count = 1, ins_percentage = 2345624805922133 / 70368744177664\<rparr> \<and>
   0 < ins_percentage
         \<lparr>ins_theme = ''Customer Support'', ins_count = 1, ins_percentage = 2345624805922133 / 70368744177664\<rparr>"
proof -
  let ?aai = "\<lparr>ins_theme = ''Account Access Issues'', ins_count = 2, ins_percentage = 100\<rparr>"
  let ?cs = "\<lparr>ins_theme = ''Customer Support'', ins_count = 1, ins_percentage = 2345624805922133 / 70368744177664\<rparr>"
  from insight_lists_bounded [OF mixed_frame_select]
  obtain ins where
    run: "identify_drivers_and_pain_points mixed_frame (Some ''CBE'') = Inr ins"
    and b: "length (pain_points ins) \<le> 5"
    and ok: "\<forall>i \<in> set (drivers ins) \<union> set (pain_points ins).
               1 \<le> ins_count i \<and> 0 < ins_percentage i"
    by blast
  from run have pp: "pain_points ins = [?aai, ?cs]"
    by (auto simp: mixed_frame_insights)
  from b have 1: "length [?aai, ?cs] \<le> 5"
    unfolding pp .
  from ok pp have 2: "1 \<le> ins_count ?cs \<and> 0 < ins_percentage ?cs"
    by simp
  from 1 2 show ?thesis
    by (simp only: mixed_frame_select mixed_frame_insights simp_thms)
qed

text \<open>
  C3, as the code has it. Every insight of the returned lists reports its own source
  segment: an entry that the sentiment blocks put into \<open>pain_points\<close> (into \<open>drivers\<close>) has
  as count the number of negative (positive) reviews of the bank with its theme, and an
  entry that the rating blocks appended has as count the number of reviews with rating at
  most 2 (at least 4) with its theme; the percentage of an entry is the double that
  \<open>(count / len(segment)) * 100\<close> yields for its count and the size of that same segment
  (the quotient rounded to a double, then the product with 100 rounded to a double), never
  for the size of the whole frame or of another segment. That double is within one part
  in \<open>2 ^ 50\<close> of the number 100 times count over population, and need not be equal
  to it.
\<close>

theorem percentage_is_double_of_own_segment:
  assumes "select_bank df bank_name = Inr bank_df"
  shows "\<exists>ins rd rp.
           identify_drivers_and_pain_points df bank_name = Inr ins \<and>
           drivers ins = drivers (seeded df bank_df) @ rd \<and>
           pain_points ins = pain_points (seeded df bank_df) @ rp \<and>
           (\<forall>i \<in> set (pain_points (seeded df bank_df)).
              reports_segment (negative_reviews bank_df) i) \<and>
           (\<forall>i \<in> set rp. reports_segment (low_ratings bank_df) i) \<and>
           (\<forall>i \<in> set (drivers (seeded df bank_df)).
              reports_segment (positive_reviews bank_df) i) \<and>
           (\<forall>i \<in> set rd. reports_segment (high_ratings bank_df) i) \<and>
           (\<forall>cnt n. 0 < cnt \<longrightarrow> 0 < n \<longrightarrow>
              \<bar>pct cnt n - claimed_percentage cnt n\<bar> \<le> claimed_percentage cnt n / 2 ^ 50)"
proof -
  let ?sd = "drivers (seeded df bank_df)" and ?sp = "pain_points (seeded df bank_df)"
  let ?c = "''rating'' \<in> set (columns df) \<and> ''theme'' \<in> set (columns df)"
  let ?rd = "if ?c then rating_extras (high_ratings bank_df) ?sd else []"
  let ?rp = "if ?c then rating_extras (low_ratings bank_df) ?sp else []"
  let ?ins = "\<lparr>drivers = ?sd @ ?rd, pain_points = ?sp @ ?rp\<rparr>"
  have run: "identify_drivers_and_pain_points df bank_name = Inr ?ins"
    by (rule identify_closed_form [OF assms])
  have rp: "\<forall>i \<in> set ?rp. reports_segment (low_ratings bank_df) i"
    using guarded_extras_entry [of _ ?c "low_ratings bank_df" ?sp] by blast
  have rd: "\<forall>i \<in> set ?rd. reports_segment (high_ratings bank_df) i"
    using guarded_extras_entry [of _ ?c "high_ratings bank_df" ?sd] by blast
  have acc: "\<forall>cnt n. 0 < cnt \<longrightarrow> 0 < n \<longrightarrow>
              \<bar>pct cnt n - claimed_percentage cnt n\<bar> \<le> claimed_percentage cnt n / 2 ^ 50"
    unfolding claimed_percentage_def using pct_error by blast
  show ?thesis
    apply (rule exI [of _ ?ins])
    apply (rule exI [of _ ?rd])
    apply (rule exI [of _ ?rp])
    apply (simp only: insights.simps)
    apply (intro conjI)
           apply (rule run)
          apply (rule refl)
         apply (rule refl)
        apply (rule seeded_reports(2))
       apply (rule rp)
      apply (rule seeded_reports(1))
     apply (rule rd)
    apply (rule acc)
    done
qed

theorem percentage_is_double_of_own_segment_witness:
  "select_bank mixed_frame (Some ''CBE'') = Inr (rows mixed_frame) \<and>
   identify_drivers_and_pain_points mixed_frame (Some ''CBE'') =
     Inr \<lparr>drivers = [\<lparr>ins_theme = ''Transaction Performance'', ins_count = 2,
                       ins_percentage = 2345624805922133 / 35184372088832\<rparr>,
                     \<lparr>ins_theme = ''Customer Support'', ins_count = 1,
                       ins_percentage = 2345624805922133 / 70368744177664\<rparr>],
          pain_points = [\<lparr>ins_theme = ''Account Access Issues'', ins_count = 2,
                           ins_percentage = 100\<rparr>,
                         \<lparr>ins_theme = ''Customer Support'', ins_count = 1,
                           ins_percentage = 2345624805922133 / 70368744177664\<rparr>]\<rparr> \<and>
   length (negative_reviews (rows mixed_frame)) = 2 \<and>
   length (low_ratings (rows mixed_frame)) = 3 \<and>
   reports_segment (negative_reviews (rows mixed_frame))
     \<lparr>ins_theme = ''Account Access Issues'', ins_count = 2, ins_percentage = 100\<rparr> \<and>
   reports_segment (low_ratings (rows mixed_frame))
     \<lparr>ins_theme = ''Customer Support'', ins_count = 1,
        ins_percentage = 2345624805922133 / 70368744177664\<rparr> \<and>
   pct 1 3 = 2345624805922133 / 70368744177664 \<and>
   \<bar>pct 1 3 - claimed_percentage 1 3\<bar> \<le> claimed_percentage 1 3 / 2 ^ 50"
proof -
  let ?aai = "\<lparr>ins_theme = ''Account Access Issues'', ins_count = 2, ins_percentage = 100\<rparr>"
  let ?cs = "\<lparr>ins_theme = ''Customer Support'', ins_count = 1,
               ins_percentage = 2345624805922133 / 70368744177664\<rparr>"
  from percentage_is_double_of_own_segment [OF mixed_frame_select]
  obtain ins rd rp where
    run: "identify_drivers_and_pain_points mixed_frame (Some ''CBE'') = Inr ins"
    and parts: "pain_points ins = pain_points (seeded mixed_frame (rows mixed_frame)) @ rp"
    and seed: "\<forall>i \<in> set (pain_points (seeded mixed_frame (rows mixed_frame))).
                 reports_segment (negative_reviews (rows mixed_frame)) i"
    and extra: "\<forall>i \<in> set rp. reports_segment (low_ratings (rows mixed_frame)) i"
    and acc: "\<forall>cnt n. 0 < cnt \<longrightarrow> 0 < n \<longrightarrow>
              \<bar>pct cnt n - claimed_percentage cnt n\<bar> \<le> claimed_percentage cnt n / 2 ^ 50"
    by blast
  from run have "pain_points ins = [?aai, ?cs]"
    by (auto simp: mixed_frame_insights)
  with parts have "rp = [?cs]"
    by (simp add: mixed_frame_seeded)
  with extra have 1: "reports_segment (low_ratings (rows mixed_frame)) ?cs"
    by simp
  from seed have 2: "reports_segment (negative_reviews (rows mixed_frame)) ?aai"
    by (simp add: mixed_frame_seeded)
  from acc have 3: "\<bar>pct 1 3 - claimed_percentage 1 3\<bar> \<le> claimed_percentage 1 3 / 2 ^ 50"
    by simp
  from 1 2 3 show ?thesis
    by (simp only: mixed_frame_select mixed_frame_insights mixed_frame_segments
          pct_examples simp_thms)
qed

text \<open>
  C3 as the specification states it fails: the percentage is a double and need not be
  the number 100 times count over population. In the frame above, one of the three
  reviews with a rating of at most 2 has the theme Customer Support; the percentage of
  that pain point is the double that Python prints as 33.33333333333333, which is not
  100 / 3.
\<close>

theorem percentage_exact_counterexample:
  "identify_drivers_and_pain_points mixed_frame (Some ''CBE'') =
     Inr \<lparr>drivers = [\<lparr>ins_theme = ''Transaction Performance'', ins_count = 2,
                       ins_percentage = 2345624805922133 / 35184372088832\<rparr>,
                     \<lparr>ins_theme = ''Customer Support'', ins_count = 1,
                       ins_percentage = 2345624805922133 / 70368744177664\<rparr>],
          pain_points = [\<lparr>ins_theme = ''Account Access Issues'', ins_count = 2,
                           ins_percentage = 100\<rparr>,
                         \<lparr>ins_theme = ''Customer Support'', ins_count = 1,
                           ins_percentage = 2345624805922133 / 70368744177664\<rparr>]\<rparr> \<and>
   theme_count (low_ratings (rows mixed_frame)) ''Customer Support'' = 1 \<and>
   length (low_ratings (rows mixed_frame)) = 3 \<and>
   claimed_percentage 1 3 = 100 / 3 \<and>
   ins_percentage \<lparr>ins_theme = ''Customer Support'', ins_count = 1,
                    ins_percentage = 2345624805922133 / 70368744177664\<rparr>
     \<noteq> claimed_percentage 1 3"
  by (simp add: mixed_frame_insights mixed_frame_segments claimed_percentage_def)
     (simp add: theme_count_def low_ratings_def mixed_frame_def)

text \<open>
  C2, as the code has it. For a frame with the columns \<open>sentiment_label\<close> and \<open>theme\<close>, the
  \<open>pain_points\<close> seed list is what is left of the first three entries of the tally of the
  bank's negative-sentiment reviews when the entries for "" and Other are dropped from
  those three, and the \<open>drivers\<close> seed list is the same for the positive-sentiment
  reviews. The tally has one entry for every theme value that occurs in the segment,
  "" and Other included, with the number of its reviews, in descending order of that
  number. So "" and Other never appear in a seed list and a seed list has at most three
  entries, but "" or Other among the first three of the tally leaves a shorter list: the
  next eligible theme does not move up. The returned lists start with the seed lists.
\<close>

theorem seed_lists_top_three_then_filtered:
  assumes "select_bank df bank_name = Inr bank_df"
    and "''sentiment_label'' \<in> set (columns df)" and "''theme'' \<in> set (columns df)"
  shows "\<exists>ins rd rp.
           identify_drivers_and_pain_points df bank_name = Inr ins \<and>
           drivers ins = seed_list (positive_reviews bank_df) @ rd \<and>
           pain_points ins = seed_list (negative_reviews bank_df) @ rp \<and>
           drivers (seeded df bank_df) = seed_list (positive_reviews bank_df) \<and>
           pain_points (seeded df bank_df) = seed_list (negative_reviews bank_df) \<and>
           length (seed_list (positive_reviews bank_df)) \<le> 3 \<and>
           length (seed_list (negative_reviews bank_df)) \<le> 3 \<and>
           (\<forall>i \<in> set (seed_list (positive_reviews bank_df)) \<union>
                  set (seed_list (negative_reviews bank_df)).
              ins_theme i \<noteq> [] \<and> ins_theme i \<noteq> ''Other'') \<and>
           (\<forall>segment.
              sorted_wrt (\<lambda>a b. snd b \<le> snd a) (value_counts (map theme segment)) \<and>
              distinct (map fst (value_counts (map theme segment))) \<and>
              (\<forall>k c. ((k, c) \<in> set (value_counts (map theme segment))) =
                       (c = theme_count segment k \<and> 1 \<le> c)))"
proof -
  let ?c = "''rating'' \<in> set (columns df) \<and> ''theme'' \<in> set (columns df)"
  let ?pos = "seed_list (positive_reviews bank_df)"
  let ?neg = "seed_list (negative_reviews bank_df)"
  let ?rd = "if ?c then rating_extras (high_ratings bank_df) ?pos else []"
  let ?rp = "if ?c then rating_extras (low_ratings bank_df) ?neg else []"
  let ?ins = "\<lparr>drivers = ?pos @ ?rd, pain_points = ?neg @ ?rp\<rparr>"
  have s: "seeded df bank_df = \<lparr>drivers = ?pos, pain_points = ?neg\<rparr>"
    using assms(2,3) by (simp add: seeded_eq)
  have run: "identify_drivers_and_pain_points df bank_name = Inr ?ins"
    using identify_closed_form [OF assms(1)] unfolding s by simp
  have el: "\<forall>i \<in> set ?pos \<union> set ?neg. ins_theme i \<noteq> [] \<and> ins_theme i \<noteq> ''Other''"
    using seed_list_entry by blast
  have tally: "\<forall>segment.
              sorted_wrt (\<lambda>a b. snd b \<le> snd a) (value_counts (map theme segment)) \<and>
              distinct (map fst (value_counts (map theme segment))) \<and>
              (\<forall>k c. ((k, c) \<in> set (value_counts (map theme segment))) =
                       (c = theme_count segment k \<and> 1 \<le> c))"
    using tally_of_segment by blast
  show ?thesis
    apply (rule exI [of _ ?ins])
    apply (rule exI [of _ ?rd])
    apply (rule exI [of _ ?rp])
    apply (simp only: insights.simps s)
    apply (intro conjI)
            apply (rule run)
           apply (rule refl)
          apply (rule refl)
         apply (rule refl)
        apply (rule refl)
       apply (rule seed_list_length)
      apply (rule seed_list_length)
     apply (rule el)
    apply (rule tally)
    done
qed

theorem seed_lists_top_three_then_filtered_witness:
  "select_bank displaced_frame (Some ''CBE'') = Inr (rows displaced_frame) \<and>
   ''sentiment_label'' \<in> set (columns displaced_frame) \<and>
   ''theme'' \<in> set (columns displaced_frame) \<and>
   take 3 (value_counts (map theme (negative_reviews (rows displaced_frame)))) =
     [(''Other'', 4), (''Account Access Issues'', 3), (''Transaction Performance'', 2)] \<and>
   seed_list (negative_reviews (rows displaced_frame)) =
     [\<lparr>ins_theme = ''Account Access Issues'', ins_count = 3, ins_percentage = 30\<rparr>,
      \<lparr>ins_theme = ''Transaction Performance'', ins_count = 2, ins_percentage = 20\<rparr>]"
proof -
  have cols: "''sentiment_label'' \<in> set (columns displaced_frame)"
    "''theme'' \<in> set (columns displaced_frame)"
    by (simp_all add: displaced_frame_def)
  from seed_lists_top_three_then_filtered [OF displaced_frame_select cols]
  have "pain_points (seeded displaced_frame (rows displaced_frame)) =
          seed_list (negative_reviews (rows displaced_frame))"
    by blast
  then have seed: "seed_list (negative_reviews (rows displaced_frame)) =
     [\<lparr>ins_theme = ''Account Access Issues'', ins_count = 3, ins_percentage = 30\<rparr>,
      \<lparr>ins_theme = ''Transaction Performance'', ins_count = 2, ins_percentage = 20\<rparr>]"
    by (simp add: displaced_frame_seeded)
  have "take 3 (value_counts (map theme (negative_reviews (rows displaced_frame)))) =
     [(''Other'', 4), (''Account Access Issues'', 3), (''Transaction Performance'', 2)]"
    by (simp add: displaced_frame_negative displaced_frame_tally)
  with seed cols displaced_frame_select show ?thesis
    by blast
qed

text \<open>
  C2 as the specification states it fails: in a frame of ten negative reviews, four with
  the theme Other and three, two and one with the themes Account Access Issues,
  Transaction Performance and Customer Support, the \<open>pain_points\<close> seed list (and the
  returned list, the ratings being 3) has the two entries Account Access Issues and
  Transaction Performance, although the top three themes of a tally without Other are
  these two and Customer Support: Other has taken a place among the first three.
\<close>

theorem seed_list_top_three_counterexample:
  "identify_drivers_and_pain_points displaced_frame (Some ''CBE'') =
     Inr \<lparr>drivers = [],
          pain_points = [\<lparr>ins_theme = ''Account Access Issues'', ins_count = 3,
                           ins_percentage = 30\<rparr>,
                         \<lparr>ins_theme = ''Transaction Performance'', ins_count = 2,
                           ins_percentage = 20\<rparr>]\<rparr> \<and>
   pain_points (seeded displaced_frame (rows displaced_frame)) =
     [\<lparr>ins_theme = ''Account Access Issues'', ins_count = 3, ins_percentage = 30\<rparr>,
      \<lparr>ins_theme = ''Transaction Performance'', ins_count = 2, ins_percentage = 20\<rparr>] \<and>
   claimed_seed_list (negative_reviews (rows displaced_frame)) =
     [\<lparr>ins_theme = ''Account Access Issues'', ins_count = 3, ins_percentage = 30\<rparr>,
      \<lparr>ins_theme = ''Transaction Performance'', ins_count = 2, ins_percentage = 20\<rparr>,
      \<lparr>ins_theme = ''Customer Support'', ins_count = 1, ins_percentage = 10\<rparr>] \<and>
   pain_points (seeded displaced_frame (rows displaced_frame)) \<noteq>
     claimed_seed_list (negative_reviews (rows displaced_frame))"
  by (simp add: displaced_frame_insights displaced_frame_seeded displaced_frame_negative
        displaced_frame_claimed)

end
